theory Spec2Isabelle
  imports Complex_Main
begin

section \<open>Data model\<close>

text \<open>
  The TypeScript interfaces of \<^verbatim>\<open>src/app/utils/ai.ts\<close> (the rule-based AI and, in the same
  file, the training simulator) and of the neural AI module. JavaScript numbers that hold troop
  counts, gold and coordinates are integers throughout the code (every fractional result is
  passed through \<^verbatim>\<open>Math.floor\<close> before it is stored), so they are modelled as \<open>int\<close>; the
  products \<^verbatim>\<open>Math.floor(n * 0.7)\<close> and \<^verbatim>\<open>Math.floor(n * 0.8)\<close> are computed as the code
  computes them, in double precision (section on JavaScript numbers below). A building level is a
  \<open>nat\<close>: the only level the code ever stores is 1. An optional field is an \<open>option\<close>; the
  optional flag \<^verbatim>\<open>wall?: boolean\<close> is a \<open>bool\<close> (undefined is falsy).
\<close>

datatype BuildingType = Fort | Farm | Tower | Barracks | Wall | Mine | Market

record Building =
  b_type :: BuildingType
  b_level :: nat

record Owner =
  o_id :: string
  o_name :: string
  o_color :: string

record Territory =
  t_x :: int
  t_y :: int
  t_type :: string
  t_color :: string
  t_owner :: "Owner option"
  t_troops :: int
  t_troopCapacity :: int
  t_isSelected :: bool
  t_building :: "Building option"
  t_wall :: bool
  t_gold :: "int option"

record AIPlayer =
  p_id :: string
  p_name :: string
  p_color :: string
  p_personality :: "string option"
  p_gold :: "int option"
  p_troops :: "int option"
  p_territory :: "int option"

datatype ActionKind = Attack | Defend | Build

record Decision =
  d_action :: ActionKind
  d_source :: "Territory option"
  d_target :: "Territory option"
  d_buildingType :: "BuildingType option"

section \<open>Array helpers\<close>

text \<open>\<^verbatim>\<open>Array.prototype.findIndex\<close>: the first index whose element satisfies the predicate;
  \<open>None\<close> stands for the result \<open>-1\<close>.\<close>

fun findIndex :: "('a \<Rightarrow> bool) \<Rightarrow> 'a list \<Rightarrow> nat option" where
  "findIndex P [] = None"
| "findIndex P (x # xs) = (if P x then Some 0 else map_option Suc (findIndex P xs))"

text \<open>The predicate \<^verbatim>\<open>(t) => t.x === d.x && t.y === d.y\<close> of every coordinate lookup.\<close>

definition sameCell :: "Territory \<Rightarrow> Territory \<Rightarrow> bool" where
  "sameCell d t \<longleftrightarrow> t_x t = t_x d \<and> t_y t = t_y d"

text \<open>An in-place assignment \<^verbatim>\<open>ts[i].field = v\<close> on the object stored at index \<open>i\<close>. The
  arrays are shallow copies, so every later read of index \<open>i\<close> sees the assignment.\<close>

definition modify :: "nat \<Rightarrow> ('a \<Rightarrow> 'a) \<Rightarrow> 'a list \<Rightarrow> 'a list" where
  "modify i f ts = ts[i := f (ts ! i)]"

text \<open>The object literal \<^verbatim>\<open>{ id: p.id, name: p.name, color: p.color }\<close>.\<close>

definition ownerOf :: "AIPlayer \<Rightarrow> Owner" where
  "ownerOf p = \<lparr>o_id = p_id p, o_name = p_name p, o_color = p_color p\<rparr>"

text \<open>\<^verbatim>\<open>t.owner && t.owner.id === id\<close>\<close>

definition ownedBy :: "string \<Rightarrow> Territory \<Rightarrow> bool" where
  "ownedBy pid t \<longleftrightarrow> (case t_owner t of None \<Rightarrow> False | Some ow \<Rightarrow> o_id ow = pid)"

text \<open>\<^verbatim>\<open>building?.type === "fort" ? building.level : 0\<close>\<close>

definition defenseBonusOf :: "Territory \<Rightarrow> int" where
  "defenseBonusOf t =
     (case t_building t of
        None \<Rightarrow> 0
      | Some b \<Rightarrow> if b_type b = Fort then int (b_level b) else 0)"

text \<open>The table \<^verbatim>\<open>buildingCosts\<close>, the same in the resolver, the simulator and the enumerator.\<close>

fun buildingCosts :: "BuildingType \<Rightarrow> int" where
  "buildingCosts Fort = 100"
| "buildingCosts Farm = 150"
| "buildingCosts Tower = 200"
| "buildingCosts Barracks = 120"
| "buildingCosts Wall = 80"
| "buildingCosts Mine = 150"
| "buildingCosts Market = 200"

section \<open>JavaScript numbers: the floor of a product with 0.7 or 0.8\<close>

text \<open>
  \<^verbatim>\<open>0.7\<close> and \<^verbatim>\<open>0.8\<close> are the doubles \<^verbatim>\<open>0x1.6666666666666p-1\<close> and
  \<^verbatim>\<open>0x1.999999999999ap-1\<close>, that is \<open>m / 2 ^ 53\<close> for the 53-bit integers \<open>m\<close> below. For an
  integer \<open>n\<close> the product \<^verbatim>\<open>n * 0.7\<close> is the exact value \<open>n m / 2 ^ 53\<close> rounded to 53
  significant bits, a tie going to the even neighbour, and \<^verbatim>\<open>Math.floor\<close> is taken of the
  rounded value. So \<^verbatim>\<open>Math.floor(10 * 0.7)\<close> is 7 but \<^verbatim>\<open>Math.floor(90 * 0.7)\<close> is 62. The model
  is exact for \<open>|n| < 2 ^ 53\<close>, the integers a double holds exactly. The quotients
  \<^verbatim>\<open>Math.floor(n / 2)\<close> and \<^verbatim>\<open>Math.floor(a / (1 + bonus))\<close> of such integers are the integer
  quotients: no rounding of the quotient reaches the next integer.
\<close>

definition double07 :: nat where
  "double07 = 6305039478318694"

definition double08 :: nat where
  "double08 = 7205759403792794"

text \<open>The number of low bits that rounding to 53 significant bits drops from \<open>p\<close>.\<close>

function roundShift :: "nat \<Rightarrow> nat" where
  "roundShift p = (if p < 2 ^ 53 then 0 else Suc (roundShift (p div 2)))"
  by pat_completeness auto
termination
  by (relation "measure (\<lambda>p. p)") auto

declare roundShift.simps [simp del]

text \<open>\<open>p\<close> rounded to 53 significant bits, ties to even.\<close>

definition roundToDouble :: "nat \<Rightarrow> nat" where
  "roundToDouble p =
     (let s = roundShift p; q = p div 2 ^ s; r = p mod 2 ^ s
      in if 2 * r > 2 ^ s \<or> (2 * r = 2 ^ s \<and> odd q) then (q + 1) * 2 ^ s else q * 2 ^ s)"

text \<open>\<^verbatim>\<open>Math.floor(n * c)\<close> for the double \<open>c = m / 2 ^ 53\<close>.\<close>

definition jsFloorMul :: "nat \<Rightarrow> int \<Rightarrow> int" where
  "jsFloorMul m n =
     (if 0 \<le> n then int (roundToDouble (nat n * m)) div 2 ^ 53
      else (- int (roundToDouble (nat (- n) * m))) div 2 ^ 53)"

section \<open>The rule-based resolver: processAIAction\<close>

text \<open>
  \<^verbatim>\<open>processAIAction(territories, decision, aiPlayer)\<close> returns the updated grid; it also
  mutates \<^verbatim>\<open>aiPlayer.gold\<close>, so the model returns the player as well. The function has no
  \<^verbatim>\<open>throw\<close> and reads no index it has not checked, so it is total as written.
\<close>

definition processAIAction_attack ::
  "Territory list \<Rightarrow> Territory \<Rightarrow> Territory \<Rightarrow> AIPlayer \<Rightarrow> Territory list" where
  "processAIAction_attack ts src tgt aiPlayer =
     (case (findIndex (sameCell src) ts, findIndex (sameCell tgt) ts) of
        (Some attackingIndex, Some targetIndex) \<Rightarrow>
          let attackingTroops = jsFloorMul double07 (t_troops (ts ! attackingIndex));
              defenseBonus = defenseBonusOf (ts ! targetIndex);
              effectiveDefense = t_troops (ts ! targetIndex) * (1 + defenseBonus)
          in if attackingTroops > effectiveDefense then
               let remainingTroops = attackingTroops - t_troops (ts ! targetIndex);
                   ts1 = modify targetIndex (\<lambda>t. t\<lparr>t_owner := Some (ownerOf aiPlayer)\<rparr>) ts;
                   ts2 = modify targetIndex (\<lambda>t. t\<lparr>t_troops := remainingTroops\<rparr>) ts1;
                   ts3 = (if t_building (ts2 ! targetIndex) \<noteq> None \<and> \<not> t_wall (ts2 ! targetIndex)
                          then modify targetIndex (\<lambda>t. t\<lparr>t_building := None\<rparr>) ts2
                          else ts2)
               in modify attackingIndex (\<lambda>t. t\<lparr>t_troops := t_troops t - attackingTroops\<rparr>) ts3
             else
               let ts1 = modify targetIndex
                           (\<lambda>t. t\<lparr>t_troops := t_troops t - attackingTroops div (1 + defenseBonus)\<rparr>) ts
               in modify attackingIndex (\<lambda>t. t\<lparr>t_troops := t_troops t - attackingTroops\<rparr>) ts1
      | _ \<Rightarrow> ts)"

definition processAIAction_defend :: "Territory list \<Rightarrow> Territory \<Rightarrow> Territory list" where
  "processAIAction_defend ts tgt =
     (case findIndex (sameCell tgt) ts of
        None \<Rightarrow> ts
      | Some defendIndex \<Rightarrow> modify defendIndex (\<lambda>t. t\<lparr>t_troops := t_troops t + 5\<rparr>) ts)"

definition processAIAction_build ::
  "Territory list \<Rightarrow> Territory \<Rightarrow> BuildingType \<Rightarrow> AIPlayer \<Rightarrow> Territory list \<times> AIPlayer" where
  "processAIAction_build ts tgt buildingType aiPlayer =
     (case findIndex (sameCell tgt) ts of
        None \<Rightarrow> (ts, aiPlayer)
      | Some buildIndex \<Rightarrow>
          let cost = buildingCosts buildingType in
          (case p_gold aiPlayer of
             None \<Rightarrow> (ts, aiPlayer)
           | Some g \<Rightarrow>
               if g \<noteq> 0 \<and> g \<ge> cost then
                 let aiPlayer' = aiPlayer\<lparr>p_gold := Some (g - cost)\<rparr> in
                 if buildingType = Wall then
                   (if t_owner (ts ! buildIndex) = None then
                      let ts1 = modify buildIndex (\<lambda>t. t\<lparr>t_wall := True\<rparr>) ts;
                          ts2 = modify buildIndex (\<lambda>t. t\<lparr>t_owner := Some (ownerOf aiPlayer')\<rparr>) ts1
                      in (modify buildIndex (\<lambda>t. t\<lparr>t_troops := 0\<rparr>) ts2, aiPlayer')
                    else (ts, aiPlayer'))
                 else
                   (if ownedBy (p_id aiPlayer') (ts ! buildIndex) then
                      (modify buildIndex
                         (\<lambda>t. t\<lparr>t_building := Some \<lparr>b_type = buildingType, b_level = 1\<rparr>\<rparr>) ts,
                       aiPlayer')
                    else (ts, aiPlayer'))
               else (ts, aiPlayer)))"

definition processAIAction ::
  "Territory list \<Rightarrow> Decision \<Rightarrow> AIPlayer \<Rightarrow> Territory list \<times> AIPlayer" where
  "processAIAction territories decision aiPlayer =
     (case d_action decision of
        Attack \<Rightarrow>
          (case (d_source decision, d_target decision) of
             (Some src, Some tgt) \<Rightarrow> (processAIAction_attack territories src tgt aiPlayer, aiPlayer)
           | _ \<Rightarrow> (territories, aiPlayer))
      | Defend \<Rightarrow>
          (case d_target decision of
             Some tgt \<Rightarrow> (processAIAction_defend territories tgt, aiPlayer)
           | None \<Rightarrow> (territories, aiPlayer))
      | Build \<Rightarrow>
          (case (d_target decision, d_buildingType decision) of
             (Some tgt, Some bt) \<Rightarrow> processAIAction_build territories tgt bt aiPlayer
           | _ \<Rightarrow> (territories, aiPlayer)))"

section \<open>The simulator's resolver: GameSimulator.executeAction\<close>

text \<open>
  \<^verbatim>\<open>executeAction(action, player)\<close> mutates \<^verbatim>\<open>this.territories\<close> and \<^verbatim>\<open>player.gold\<close>; the model
  takes the grid and the player and returns both. The source's troops are reduced before the
  outcome is determined, as in the code.
\<close>

definition executeAction_attack ::
  "Territory list \<Rightarrow> Territory \<Rightarrow> Territory \<Rightarrow> AIPlayer \<Rightarrow> Territory list" where
  "executeAction_attack ts src tgt player =
     (case (findIndex (sameCell src) ts, findIndex (sameCell tgt) ts) of
        (Some sourceIndex, Some targetIndex) \<Rightarrow>
          if \<not> ownedBy (p_id player) (ts ! sourceIndex) \<or> t_troops (ts ! sourceIndex) < 2 then ts
          else
            let attackingTroops = jsFloorMul double08 (t_troops (ts ! sourceIndex));
                ts1 = modify sourceIndex (\<lambda>t. t\<lparr>t_troops := t_troops t - attackingTroops\<rparr>) ts
            in if attackingTroops > t_troops (ts1 ! targetIndex) then
                 let ts2 = modify targetIndex (\<lambda>t. t\<lparr>t_owner := Some (ownerOf player)\<rparr>) ts1
                 in modify targetIndex (\<lambda>t. t\<lparr>t_troops := attackingTroops - t_troops t\<rparr>) ts2
               else
                 modify targetIndex (\<lambda>t. t\<lparr>t_troops := t_troops t - attackingTroops\<rparr>) ts1
      | _ \<Rightarrow> ts)"

definition executeAction_defend ::
  "Territory list \<Rightarrow> Territory \<Rightarrow> AIPlayer \<Rightarrow> Territory list" where
  "executeAction_defend ts tgt player =
     (case findIndex (sameCell tgt) ts of
        None \<Rightarrow> ts
      | Some defendIndex \<Rightarrow>
          if \<not> ownedBy (p_id player) (ts ! defendIndex) then ts
          else modify defendIndex (\<lambda>t. t\<lparr>t_troops := t_troops t + 5\<rparr>) ts)"

definition executeAction_build ::
  "Territory list \<Rightarrow> Territory \<Rightarrow> BuildingType \<Rightarrow> AIPlayer \<Rightarrow> Territory list \<times> AIPlayer" where
  "executeAction_build ts tgt buildingType player =
     (case findIndex (sameCell tgt) ts of
        None \<Rightarrow> (ts, player)
      | Some buildIndex \<Rightarrow>
          let cost = buildingCosts buildingType;
              g = (case p_gold player of None \<Rightarrow> 0 | Some v \<Rightarrow> v)
          in if g < cost then (ts, player)
             else
               let player' = player\<lparr>p_gold := Some (g - cost)\<rparr> in
               if buildingType = Wall then
                 (if t_owner (ts ! buildIndex) = None then
                    let ts1 = modify buildIndex (\<lambda>t. t\<lparr>t_wall := True\<rparr>) ts;
                        ts2 = modify buildIndex (\<lambda>t. t\<lparr>t_owner := Some (ownerOf player')\<rparr>) ts1
                    in (modify buildIndex (\<lambda>t. t\<lparr>t_troops := 0\<rparr>) ts2, player')
                  else (ts, player'))
               else
                 (if ownedBy (p_id player') (ts ! buildIndex) then
                    (modify buildIndex
                       (\<lambda>t. t\<lparr>t_building := Some \<lparr>b_type = buildingType, b_level = 1\<rparr>\<rparr>) ts,
                     player')
                  else (ts, player')))"

definition executeAction ::
  "Territory list \<Rightarrow> Decision \<Rightarrow> AIPlayer \<Rightarrow> Territory list \<times> AIPlayer" where
  "executeAction territories action player =
     (case d_action action of
        Attack \<Rightarrow>
          (case (d_source action, d_target action) of
             (Some src, Some tgt) \<Rightarrow> (executeAction_attack territories src tgt player, player)
           | _ \<Rightarrow> (territories, player))
      | Defend \<Rightarrow>
          (case d_target action of
             Some tgt \<Rightarrow> (executeAction_defend territories tgt player, player)
           | None \<Rightarrow> (territories, player))
      | Build \<Rightarrow>
          (case (d_target action, d_buildingType action) of
             (Some tgt, Some bt) \<Rightarrow> executeAction_build territories tgt bt player
           | _ \<Rightarrow> (territories, player)))"

section \<open>The interactive client: the selection and attack part of handleCanvasClick\<close>

text \<open>
  The part of \<^verbatim>\<open>handleCanvasClick\<close> after the claim and building modes: the first click selects
  one of the human player's territories, the second click moves troops to an own territory or
  attacks. \<open>clickedIndex\<close> is the index the handler found for the clicked tile. The result is the
  grid after the handler's in-place assignments. \<^verbatim>\<open>Math.sqrt(dx*dx + dy*dy) <= 2 + bonus\<close> on
  integer coordinates is the comparison of the squares.
\<close>

definition humanOwner :: "string \<Rightarrow> Owner" where
  "humanOwner playerName =
     \<lparr>o_id = ''player1'',
      o_name = (if playerName = [] then ''Player'' else playerName),
      o_color = ''#e63946''\<rparr>"

definition rangeBonusOf :: "Territory \<Rightarrow> int" where
  "rangeBonusOf t =
     (case t_building t of
        None \<Rightarrow> 0
      | Some b \<Rightarrow> if b_type b = Tower then int (b_level b) else 0)"

definition secondClick ::
  "Territory list \<Rightarrow> nat \<Rightarrow> nat \<Rightarrow> string \<Rightarrow> Territory list" where
  "secondClick ts selectedIndex clickedIndex playerName =
     (let selectedTerritory = ts ! selectedIndex;
          targetTerritory = ts ! clickedIndex;
          dx = t_x selectedTerritory - t_x targetTerritory;
          dy = t_y selectedTerritory - t_y targetTerritory;
          hasRangeBonus = rangeBonusOf selectedTerritory
      in if dx * dx + dy * dy \<le> (2 + hasRangeBonus) * (2 + hasRangeBonus) then
           if ownedBy ''player1'' targetTerritory then
             let troopsToMove = jsFloorMul double08 (t_troops selectedTerritory) in
             if troopsToMove > 0 then
               let ts1 = modify clickedIndex (\<lambda>t. t\<lparr>t_troops := t_troops t + troopsToMove\<rparr>) ts
               in modify selectedIndex (\<lambda>t. t\<lparr>t_troops := t_troops t - troopsToMove\<rparr>) ts1
             else ts
           else
             let defenseBonus = defenseBonusOf targetTerritory;
                 effectiveDefense = t_troops targetTerritory * (1 + defenseBonus);
                 attackingTroops = t_troops selectedTerritory div 2
             in if attackingTroops > 0 then
                  if attackingTroops > effectiveDefense then
                    let ts1 = modify clickedIndex (\<lambda>t. t\<lparr>t_owner := Some (humanOwner playerName)\<rparr>) ts;
                        ts2 = modify clickedIndex (\<lambda>t. t\<lparr>t_troops := attackingTroops - t_troops t\<rparr>) ts1;
                        ts3 = modify selectedIndex (\<lambda>t. t\<lparr>t_troops := t_troops t - attackingTroops\<rparr>) ts2
                    in if t_building (ts3 ! clickedIndex) \<noteq> None
                       then modify clickedIndex (\<lambda>t. t\<lparr>t_building := None\<rparr>) ts3
                       else ts3
                  else
                    let ts1 = modify clickedIndex
                                (\<lambda>t. t\<lparr>t_troops := t_troops t - attackingTroops div (1 + defenseBonus)\<rparr>) ts
                    in modify selectedIndex (\<lambda>t. t\<lparr>t_troops := t_troops t - attackingTroops\<rparr>) ts1
                else ts
         else ts)"

definition handleCanvasClick_select :: "Territory list \<Rightarrow> nat \<Rightarrow> string \<Rightarrow> Territory list" where
  "handleCanvasClick_select territories clickedIndex playerName =
     (case findIndex t_isSelected territories of
        None \<Rightarrow>
          if ownedBy ''player1'' (territories ! clickedIndex)
          then modify clickedIndex (\<lambda>t. t\<lparr>t_isSelected := True\<rparr>) territories
          else territories
      | Some selectedIndex \<Rightarrow>
          if t_wall (territories ! clickedIndex)
          then modify selectedIndex (\<lambda>t. t\<lparr>t_isSelected := False\<rparr>) territories
          else modify selectedIndex (\<lambda>t. t\<lparr>t_isSelected := False\<rparr>)
                 (secondClick territories selectedIndex clickedIndex playerName))"

section \<open>The neural AI: legal actions\<close>

text \<open>\<^verbatim>\<open>findAdjacentTerritories\<close> and \<^verbatim>\<open>findNearbyEmptyTerritories\<close>:
  \<^verbatim>\<open>distance <= range && distance > 0\<close> with \<^verbatim>\<open>distance = Math.sqrt(dx*dx + dy*dy)\<close>
  (\<open>rng\<close> is the parameter \<^verbatim>\<open>range\<close>, 2 at every call).\<close>

definition inRange :: "Territory \<Rightarrow> int \<Rightarrow> Territory \<Rightarrow> bool" where
  "inRange territory rng t \<longleftrightarrow>
     (let dx = t_x t - t_x territory; dy = t_y t - t_y territory
      in 0 \<le> rng \<and> dx * dx + dy * dy \<le> rng * rng \<and> dx * dx + dy * dy > 0)"

definition findAdjacentTerritories :: "Territory list \<Rightarrow> Territory \<Rightarrow> int \<Rightarrow> Territory list" where
  "findAdjacentTerritories territories territory rng =
     filter (\<lambda>t. inRange territory rng t \<and> \<not> t_wall t) territories"

definition findNearbyEmptyTerritories :: "Territory list \<Rightarrow> Territory \<Rightarrow> int \<Rightarrow> Territory list" where
  "findNearbyEmptyTerritories territories territory rng =
     filter (\<lambda>t. inRange territory rng t \<and> t_owner t = None \<and> \<not> t_wall t) territories"

definition goldOrZero :: "AIPlayer \<Rightarrow> int" where
  "goldOrZero p = (case p_gold p of None \<Rightarrow> 0 | Some g \<Rightarrow> g)"

definition attackAction :: "Territory \<Rightarrow> Territory \<Rightarrow> Decision" where
  "attackAction s t = \<lparr>d_action = Attack, d_source = Some s, d_target = Some t, d_buildingType = None\<rparr>"

definition defendAction :: "Territory \<Rightarrow> Decision" where
  "defendAction t = \<lparr>d_action = Defend, d_source = None, d_target = Some t, d_buildingType = None\<rparr>"

definition buildAction :: "Territory \<Rightarrow> BuildingType \<Rightarrow> Decision" where
  "buildAction t bt = \<lparr>d_action = Build, d_source = None, d_target = Some t, d_buildingType = Some bt\<rparr>"

definition attacksFrom :: "Territory list \<Rightarrow> AIPlayer \<Rightarrow> Territory \<Rightarrow> Decision list" where
  "attacksFrom territories player source =
     (if t_troops source < 5 then []
      else concat (map (\<lambda>target.
             if ownedBy (p_id player) target then []
             else if t_wall target then []
             else if t_troops source > t_troops target then [attackAction source target]
             else [])
           (findAdjacentTerritories territories source 2)))"

definition isBorder :: "Territory list \<Rightarrow> AIPlayer \<Rightarrow> Territory \<Rightarrow> bool" where
  "isBorder territories player territory \<longleftrightarrow>
     list_ex (\<lambda>n. case t_owner n of None \<Rightarrow> False | Some ow \<Rightarrow> o_id ow \<noteq> p_id player)
       (findAdjacentTerritories territories territory 2)"

definition buildingKinds :: "BuildingType list" where
  "buildingKinds = [Fort, Farm, Tower, Barracks, Wall, Mine, Market]"

definition getLegalActions :: "Territory list \<Rightarrow> AIPlayer \<Rightarrow> Decision list" where
  "getLegalActions territories player =
     (let ownedTerritories = filter (ownedBy (p_id player)) territories;
          attacks = concat (map (attacksFrom territories player) ownedTerritories);
          borderTerritories = filter (isBorder territories player) ownedTerritories;
          defends = map defendAction borderTerritories;
          builds =
            (if goldOrZero player \<ge> 80 then
               let buildableTerritories =
                     filter (\<lambda>t. t_building t = None \<and> \<not> t_wall t) ownedTerritories;
                   emptyNearbyTerritories =
                     concat (map (\<lambda>border. findNearbyEmptyTerritories territories border 2)
                               borderTerritories);
                   buildingActions =
                     concat (map (\<lambda>target.
                       concat (map (\<lambda>buildingType.
                         if goldOrZero player < buildingCosts buildingType then []
                         else if buildingType = Wall then []
                         else [buildAction target buildingType]) buildingKinds))
                       buildableTerritories);
                   wallActions =
                     (if goldOrZero player \<ge> buildingCosts Wall
                      then map (\<lambda>target. buildAction target Wall) emptyNearbyTerritories
                      else [])
               in buildingActions @ wallActions
             else [])
      in attacks @ defends @ builds)"

section \<open>The neural AI: reward, replay memory, exploration rate\<close>






text \<open>\<^verbatim>\<open>determineWinner\<close>: the territory counts are kept in an object keyed by owner id, whose
  entries are visited in insertion order (the ids are not integer-like strings); the first id
  with the strictly largest count wins, \<open>None\<close> is \<^verbatim>\<open>null\<close>.\<close>

fun bumpCount :: "string \<Rightarrow> (string \<times> nat) list \<Rightarrow> (string \<times> nat) list" where
  "bumpCount k [] = [(k, 1)]"
| "bumpCount k ((k', c) # rest) =
     (if k = k' then (k', c + 1) # rest else (k', c) # bumpCount k rest)"

definition territoryCounts :: "Territory list \<Rightarrow> (string \<times> nat) list" where
  "territoryCounts ts =
     foldl (\<lambda>m t. case t_owner t of None \<Rightarrow> m | Some ow \<Rightarrow> bumpCount (o_id ow) m) [] ts"

definition determineWinner :: "Territory list \<Rightarrow> string option" where
  "determineWinner ts =
     snd (foldl (\<lambda>(maxTerritories, winner) (playerId, count).
                   if count > maxTerritories then (count, Some playerId)
                   else (maxTerritories, winner))
            (0, None) (territoryCounts ts))"


record Experience =
  e_state :: "real list"
  e_action :: "int list"
  e_reward :: real
  e_nextState :: "real list"
  e_done :: bool

text \<open>The fields of the class \<^verbatim>\<open>NeuralAI\<close> that the replay memory and the exploration rate
  use. \<open>modelsReady\<close> stands for \<^verbatim>\<open>this.model\<close> and \<^verbatim>\<open>this.targetModel\<close> both being set.\<close>

record NeuralAI =
  replayMemory :: "Experience list"
  epsilon :: real
  trainingStep :: nat
  modelsReady :: bool

definition batchSize :: nat where "batchSize = 32"
definition epsilonMin :: real where "epsilonMin = 0.1"
definition epsilonDecay :: real where "epsilonDecay = 0.995"

text \<open>The state of a fresh instance: no network yet, an empty memory.\<close>

definition newNeuralAI :: NeuralAI where
  "newNeuralAI = \<lparr>replayMemory = [], epsilon = 1.0, trainingStep = 0, modelsReady = False\<rparr>"


text \<open>
  \<^verbatim>\<open>trainOnBatch\<close> returns early, and completes no update, when the memory holds fewer
  experiences than a batch or a network is missing. Otherwise it samples a batch, builds the
  tensors, asks both networks for their predictions and fits the main network; these library
  calls come before the decay and any of them can throw (a feature vector of the wrong length
  is enough), which leaves epsilon and the step counter as they were. Then epsilon decays, the
  step counter is incremented, and every \<^verbatim>\<open>updateFrequency\<close> steps the weights are copied to
  the target network, a library call that can throw after the two fields have changed. What
  the library does in one call is a parameter; the result is how the call ends, with the
  fields as the call leaves them.
\<close>

datatype TfCall = TfCompletes | TfThrowsBeforeDecay | TfThrowsInTargetSync

datatype Completion = Returns | Throws

definition updateFrequency :: nat where "updateFrequency = 10"

definition trainOnBatch :: "TfCall \<Rightarrow> NeuralAI \<Rightarrow> Completion \<times> NeuralAI" where
  "trainOnBatch tf ai =
     (if length (replayMemory ai) < batchSize \<or> \<not> modelsReady ai then (Returns, ai)
      else if tf = TfThrowsBeforeDecay then (Throws, ai)
      else
        let ai' = ai\<lparr>epsilon := (if epsilon ai > epsilonMin then epsilon ai * epsilonDecay
                                  else epsilon ai),
                     trainingStep := trainingStep ai + 1\<rparr>
        in if trainingStep ai' mod updateFrequency = 0 \<and> tf = TfThrowsInTargetSync
           then (Throws, ai') else (Returns, ai'))"

text \<open>The calls of \<^verbatim>\<open>trainOnBatch\<close> that \<^verbatim>\<open>runSimulation\<close> makes, one library behaviour per
  call: the loop catches the first exception and stops the simulation, so no call follows a
  call that throws.\<close>

definition trainBatches :: "TfCall list \<Rightarrow> NeuralAI \<Rightarrow> Completion \<times> NeuralAI" where
  "trainBatches tfs ai =
     foldl (\<lambda>(c, st) tf. case c of Throws \<Rightarrow> (Throws, st) | Returns \<Rightarrow> trainOnBatch tf st)
       (Returns, ai) tfs"

section \<open>The attack rule in the words of the specification\<close>

text \<open>Effective defense: \<open>target.troops \<times> (1 + fortLevel)\<close> with a fort, \<open>target.troops\<close>
  otherwise.\<close>

definition effectiveDefense :: "Territory \<Rightarrow> int" where
  "effectiveDefense t = t_troops t * (1 + defenseBonusOf t)"

text \<open>The outcome the specification gives for an attack of strength \<open>force\<close> by \<open>attacker\<close>:
  \<open>src\<close>, \<open>tgt\<close> are the two cells before and \<open>src'\<close>, \<open>tgt'\<close> the same cells after.\<close>

definition attackResolvedAsSpecified ::
  "int \<Rightarrow> Owner \<Rightarrow> Territory \<Rightarrow> Territory \<Rightarrow> Territory \<Rightarrow> Territory \<Rightarrow> bool" where
  "attackResolvedAsSpecified force attacker src tgt src' tgt' \<longleftrightarrow>
     (if force > effectiveDefense tgt
      then t_owner tgt' = Some attacker \<and> t_troops tgt' = force - t_troops tgt
      else t_owner tgt' = t_owner tgt
         \<and> t_troops tgt' = t_troops tgt - force div (1 + defenseBonusOf tgt))
     \<and> t_troops src' = t_troops src - force"

text \<open>The range test of the second click, \<^verbatim>\<open>distance <= 2 + hasRangeBonus\<close>.\<close>

definition withinClickRange :: "Territory \<Rightarrow> Territory \<Rightarrow> bool" where
  "withinClickRange s t \<longleftrightarrow>
     (t_x s - t_x t) * (t_x s - t_x t) + (t_y s - t_y t) * (t_y s - t_y t)
       \<le> (2 + rangeBonusOf s) * (2 + rangeBonusOf s)"

section \<open>The illegal actions that the resolvers reject\<close>

text \<open>A coordinate of the decision that matches no territory; a build that costs more than
  the player's gold; a wall build on a cell that has an owner.\<close>

definition missingTerritory :: "Territory list \<Rightarrow> Decision \<Rightarrow> bool" where
  "missingTerritory ts d \<longleftrightarrow>
     (case d_target d of None \<Rightarrow> False | Some tgt \<Rightarrow> findIndex (sameCell tgt) ts = None)
     \<or> (d_action d = Attack
        \<and> (case d_source d of None \<Rightarrow> False | Some src \<Rightarrow> findIndex (sameCell src) ts = None))"

definition insufficientGold :: "AIPlayer \<Rightarrow> Decision \<Rightarrow> bool" where
  "insufficientGold p d \<longleftrightarrow>
     d_action d = Build
     \<and> (case d_buildingType d of None \<Rightarrow> False | Some bt \<Rightarrow> goldOrZero p < buildingCosts bt)"

definition wallOnOwnedCell :: "Territory list \<Rightarrow> Decision \<Rightarrow> bool" where
  "wallOnOwnedCell ts d \<longleftrightarrow>
     d_action d = Build \<and> d_buildingType d = Some Wall
     \<and> (case d_target d of
          None \<Rightarrow> False
        | Some tgt \<Rightarrow>
            (case findIndex (sameCell tgt) ts of
               None \<Rightarrow> False
             | Some i \<Rightarrow> t_owner (ts ! i) \<noteq> None))"

section \<open>The reward in the words of the specification\<close>





text \<open>The winner of an episode is decided by the number of cells a player owns and, between
  players with equally many, by whose first cell comes first in the grid.\<close>

definition ownedCount :: "Territory list \<Rightarrow> string \<Rightarrow> nat" where
  "ownedCount ts q = length (filter (ownedBy q) ts)"

definition firstCellBefore :: "Territory list \<Rightarrow> string \<Rightarrow> string \<Rightarrow> bool" where
  "firstCellBefore ts p q \<longleftrightarrow>
     (case (findIndex (ownedBy p) ts, findIndex (ownedBy q) ts) of
        (Some i, Some j) \<Rightarrow> i < j
      | _ \<Rightarrow> False)"

text \<open>What the table of \<^verbatim>\<open>territoryCounts\<close> holds for a grid: one entry for each player that
  owns a cell, with the number of its cells, the players in the order of their first cells.\<close>

definition countsTable :: "Territory list \<Rightarrow> (string \<times> nat) list \<Rightarrow> bool" where
  "countsTable ts m \<longleftrightarrow>
     distinct (map fst m)
     \<and> (\<forall>k. map_of m k = (if 0 < ownedCount ts k then Some (ownedCount ts k) else None))
     \<and> sorted_wrt (firstCellBefore ts) (map fst m)"

section \<open>Example grids\<close>

text \<open>A land cell as \<^verbatim>\<open>generateRandomMap\<close> creates it, and a player as
  \<^verbatim>\<open>initializePlayers\<close> creates it, for the concrete instances below.\<close>

definition mkTerritory ::
  "int \<Rightarrow> int \<Rightarrow> Owner option \<Rightarrow> int \<Rightarrow> Building option \<Rightarrow> bool \<Rightarrow> Territory" where
  "mkTerritory x y ow n b w =
     \<lparr>t_x = x, t_y = y, t_type = ''land'', t_color = ''#c2b280'', t_owner = ow, t_troops = n,
      t_troopCapacity = 100, t_isSelected = False, t_building = b, t_wall = w, t_gold = None\<rparr>"

definition mkPlayer :: "string \<Rightarrow> int \<Rightarrow> AIPlayer" where
  "mkPlayer pid g =
     \<lparr>p_id = pid, p_name = pid, p_color = ''#e63946'', p_personality = None, p_gold = Some g,
      p_troops = Some 100, p_territory = Some 0\<rparr>"

text \<open>Two cells, the first owned by \<open>ai1\<close> and the second by \<open>ai2\<close>.\<close>

definition ownedGrid :: "Territory list" where
  "ownedGrid = [mkTerritory 0 0 (Some (ownerOf (mkPlayer ''ai1'' 500))) 10 None False,
                mkTerritory 1 0 (Some (ownerOf (mkPlayer ''ai2'' 500))) 4 None False]"

text \<open>A wall of \<open>neural\<close> at (0,0), shown as owned by it, next to a cell of \<open>ai1\<close>.\<close>

definition wallGrid :: "Territory list" where
  "wallGrid = [mkTerritory 0 0 (Some (ownerOf (mkPlayer ''neural'' 500))) 0 None True,
               mkTerritory 1 0 (Some (ownerOf (mkPlayer ''ai1'' 500))) 10 None False]"

text \<open>A cell of \<open>neural\<close> with 10 troops next to a cell of \<open>ai1\<close> with 5 troops and a
  level-1 fort.\<close>

definition fortGrid :: "Territory list" where
  "fortGrid = [mkTerritory 0 0 (Some (ownerOf (mkPlayer ''neural'' 500))) 10 None False,
               mkTerritory 1 0 (Some (ownerOf (mkPlayer ''ai1'' 500))) 5
                 (Some \<lparr>b_type = Fort, b_level = 1\<rparr>) False]"

text \<open>A cell of \<open>neural\<close> with 10 troops next to a cell of \<open>ai1\<close> with 3 troops and a farm.\<close>

definition farmGrid :: "Territory list" where
  "farmGrid = [mkTerritory 0 0 (Some (ownerOf (mkPlayer ''neural'' 500))) 10 None False,
               mkTerritory 1 0 (Some (ownerOf (mkPlayer ''ai1'' 500))) 3
                 (Some \<lparr>b_type = Farm, b_level = 1\<rparr>) False]"

text \<open>The human player's selected cell with 10 troops next to a cell of \<open>ai1\<close> with 3 troops
  and a farm, or with 3 troops and a level-1 fort.\<close>

definition clickFarmGrid :: "Territory list" where
  "clickFarmGrid =
     [(mkTerritory 0 0 (Some (humanOwner ''Ann'')) 10 None False)\<lparr>t_isSelected := True\<rparr>,
      mkTerritory 1 0 (Some (ownerOf (mkPlayer ''ai1'' 500))) 3
        (Some \<lparr>b_type = Farm, b_level = 1\<rparr>) False]"

definition clickFortGrid :: "Territory list" where
  "clickFortGrid =
     [(mkTerritory 0 0 (Some (humanOwner ''Ann'')) 10 None False)\<lparr>t_isSelected := True\<rparr>,
      mkTerritory 1 0 (Some (ownerOf (mkPlayer ''ai1'' 500))) 3
        (Some \<lparr>b_type = Fort, b_level = 1\<rparr>) False]"



text \<open>Numbered experiences, as \<^verbatim>\<open>runEpisode\<close> stores them (the action indices are the
  placeholder \<open>[0, 0, 0, 0]\<close>), and an instance whose networks exist and whose memory holds one
  batch.\<close>

definition sampleExperience :: "nat \<Rightarrow> Experience" where
  "sampleExperience n =
     \<lparr>e_state = [], e_action = [0, 0, 0, 0], e_reward = real n, e_nextState = [], e_done = False\<rparr>"

definition readyAI :: NeuralAI where
  "readyAI = newNeuralAI\<lparr>replayMemory := map sampleExperience [0..<32], modelsReady := True\<rparr>"



section \<open>Facts about the helpers\<close>

lemma findIndex_Some_bound: "findIndex P xs = Some i \<Longrightarrow> i < length xs"
  by (induction xs arbitrary: i) (auto split: if_splits)

lemma findIndex_Some_sat: "findIndex P xs = Some i \<Longrightarrow> P (xs ! i)"
  by (induction xs arbitrary: i) (auto split: if_splits)

lemma findIndex_None_iff: "findIndex P xs = None \<longleftrightarrow> (\<forall>x \<in> set xs. \<not> P x)"
  by (induction xs) auto

lemma modify_nth_same: "i < length ts \<Longrightarrow> modify i f ts ! i = f (ts ! i)"
  by (simp add: modify_def)

lemma modify_nth_other: "i \<noteq> j \<Longrightarrow> modify i f ts ! j = ts ! j"
  by (simp add: modify_def)

lemma length_modify: "length (modify i f ts) = length ts"
  by (simp add: modify_def)

text \<open>The products at the troop counts of the examples, and one where the double product is
  below the exact one.\<close>

lemma roundShift_small: "p < 2 ^ 53 \<Longrightarrow> roundShift p = 0"
  by (simp add: roundShift.simps)

lemma roundShift_step: "\<not> p < 2 ^ 53 \<Longrightarrow> roundShift p = Suc (roundShift (p div 2))"
  by (subst roundShift.simps) simp

lemma jsFloorMul_10: "jsFloorMul double07 10 = 7" "jsFloorMul double08 10 = 8"
  by (simp_all add: jsFloorMul_def roundToDouble_def double07_def double08_def
        roundShift_step roundShift_small Let_def)

lemma jsFloorMul_90: "jsFloorMul double07 90 = 62" "(90 * 7) div 10 = (63 :: int)"
  by (simp_all add: jsFloorMul_def roundToDouble_def double07_def
        roundShift_step roundShift_small Let_def)

section \<open>Build: the cost is paid before the placement checks\<close>

lemma buildingCosts_pos: "0 < buildingCosts bt"
  by (cases bt) simp_all

lemma build_rejected_after_payment:
  assumes "findIndex (sameCell tgt) ts = Some i" "p_gold p = Some g" "buildingCosts bt \<le> g"
    and "(bt = Wall \<and> t_owner (ts ! i) \<noteq> None) \<or> (bt \<noteq> Wall \<and> \<not> ownedBy (p_id p) (ts ! i))"
  shows "processAIAction_build ts tgt bt p = (ts, p\<lparr>p_gold := Some (g - buildingCosts bt)\<rparr>)"
    and "executeAction_build ts tgt bt p = (ts, p\<lparr>p_gold := Some (g - buildingCosts bt)\<rparr>)"
proof -
  from assms(3) buildingCosts_pos[of bt] have "g \<noteq> 0" by linarith
  with assms show "processAIAction_build ts tgt bt p = (ts, p\<lparr>p_gold := Some (g - buildingCosts bt)\<rparr>)"
    by (auto simp: processAIAction_build_def Let_def)
  from assms show "executeAction_build ts tgt bt p = (ts, p\<lparr>p_gold := Some (g - buildingCosts bt)\<rparr>)"
    by (auto simp: executeAction_build_def Let_def)
qed

text \<open>
  Claim C10. A build decision whose target coordinate is in the grid and whose player holds
  at least the cost of the building pays the cost first: when the placement check then fails
  (a wall on a cell that has an owner, or another building on a cell the player does not own)
  the grid comes back unchanged and the player's gold is lower by the full cost. This holds for
  \<open>processAIAction\<close> and for \<open>executeAction\<close>.
\<close>

theorem build_cost_deducted_before_placement_checks:
  assumes "d_action d = Build" "d_target d = Some tgt" "d_buildingType d = Some bt"
    and "findIndex (sameCell tgt) ts = Some i" "p_gold p = Some g" "buildingCosts bt \<le> g"
    and "(bt = Wall \<and> t_owner (ts ! i) \<noteq> None) \<or> (bt \<noteq> Wall \<and> \<not> ownedBy (p_id p) (ts ! i))"
  shows "processAIAction ts d p = (ts, p\<lparr>p_gold := Some (g - buildingCosts bt)\<rparr>)
       \<and> executeAction ts d p = (ts, p\<lparr>p_gold := Some (g - buildingCosts bt)\<rparr>)"
  using assms(1-3) build_rejected_after_payment[OF assms(4-7)]
  by (simp add: processAIAction_def executeAction_def)

text \<open>A wall on the cell \<open>ai1\<close> owns costs 80 of its 500 gold, a fort on the cell of \<open>ai2\<close>
  costs 100, and neither changes the grid.\<close>

theorem build_cost_deducted_witness:
  "processAIAction ownedGrid (buildAction (ownedGrid ! 0) Wall) (mkPlayer ''ai1'' 500)
     = (ownedGrid, (mkPlayer ''ai1'' 500)\<lparr>p_gold := Some 420\<rparr>)
   \<and> executeAction ownedGrid (buildAction (ownedGrid ! 1) Fort) (mkPlayer ''ai1'' 500)
     = (ownedGrid, (mkPlayer ''ai1'' 500)\<lparr>p_gold := Some 400\<rparr>)"
  using build_cost_deducted_before_placement_checks
          [of "buildAction (ownedGrid ! 0) Wall" "ownedGrid ! 0" Wall ownedGrid 0
              "mkPlayer ''ai1'' 500" 500]
        build_cost_deducted_before_placement_checks
          [of "buildAction (ownedGrid ! 1) Fort" "ownedGrid ! 1" Fort ownedGrid 1
              "mkPlayer ''ai1'' 500" 500]
  by (simp add: buildAction_def ownedGrid_def sameCell_def mkTerritory_def mkPlayer_def
                ownedBy_def ownerOf_def)

section \<open>Attack resolution\<close>

lemma processAIAction_attack_distinct:
  assumes "findIndex (sameCell src) ts = Some i" "findIndex (sameCell tgt) ts = Some j" "i \<noteq> j"
  shows "attackResolvedAsSpecified (jsFloorMul double07 (t_troops (ts ! i))) (ownerOf p)
           (ts ! i) (ts ! j)
           (processAIAction_attack ts src tgt p ! i) (processAIAction_attack ts src tgt p ! j)"
proof -
  have "i < length ts" "j < length ts"
    using assms findIndex_Some_bound by blast+
  with assms show ?thesis
    by (simp add: processAIAction_attack_def attackResolvedAsSpecified_def effectiveDefense_def
                  Let_def modify_def)
qed

lemma executeAction_attack_distinct:
  assumes "findIndex (sameCell src) ts = Some i" "findIndex (sameCell tgt) ts = Some j" "i \<noteq> j"
    and "ownedBy (p_id p) (ts ! i)" "2 \<le> t_troops (ts ! i)"
  shows "attackResolvedAsSpecified (jsFloorMul double08 (t_troops (ts ! i))) (ownerOf p)
           (ts ! i) ((ts ! j)\<lparr>t_building := None\<rparr>)
           (executeAction_attack ts src tgt p ! i) (executeAction_attack ts src tgt p ! j)"
proof -
  have "i < length ts" "j < length ts"
    using assms findIndex_Some_bound by blast+
  with assms show ?thesis
    by (simp add: executeAction_attack_def attackResolvedAsSpecified_def effectiveDefense_def
                  defenseBonusOf_def Let_def modify_def)
qed

text \<open>An attack between two different cells of the grid is resolved by \<open>processAIAction\<close>
  as the specification says, with the attacking force \<^verbatim>\<open>Math.floor(source.troops * 0.7)\<close>.\<close>

lemma processAIAction_resolves_as_specified:
  assumes "d_action d = Attack" "d_source d = Some src" "d_target d = Some tgt"
    and "findIndex (sameCell src) ts = Some i" "findIndex (sameCell tgt) ts = Some j" "i \<noteq> j"
  shows "attackResolvedAsSpecified (jsFloorMul double07 (t_troops (ts ! i))) (ownerOf p)
           (ts ! i) (ts ! j)
           (fst (processAIAction ts d p) ! i) (fst (processAIAction ts d p) ! j)"
  using assms(1-3) processAIAction_attack_distinct[OF assms(4-6), of p]
  by (simp add: processAIAction_def)

text \<open>\<open>executeAction\<close> of the simulator (source owned by the player, at least 2 troops, force
  \<^verbatim>\<open>Math.floor(source.troops * 0.8)\<close>) resolves the attack by the same rule applied to the target
  without its building: it never reads the building, so a fort adds nothing to the defense.\<close>

lemma executeAction_resolves_without_building:
  assumes "d_action d = Attack" "d_source d = Some src" "d_target d = Some tgt"
    and "findIndex (sameCell src) ts = Some i" "findIndex (sameCell tgt) ts = Some j" "i \<noteq> j"
    and "ownedBy (p_id p) (ts ! i)" "2 \<le> t_troops (ts ! i)"
  shows "attackResolvedAsSpecified (jsFloorMul double08 (t_troops (ts ! i))) (ownerOf p)
           (ts ! i) ((ts ! j)\<lparr>t_building := None\<rparr>)
           (fst (executeAction ts d p) ! i) (fst (executeAction ts d p) ! j)"
  using assms(1-3) executeAction_attack_distinct[OF assms(4-8)]
  by (simp add: executeAction_def)

text \<open>
  Claim C1 at a failing input. On \<open>fortGrid\<close> the player \<open>neural\<close> attacks from its cell with
  10 troops the cell of \<open>ai1\<close> that holds 5 troops behind a level-1 fort. In \<open>executeAction\<close>
  the force is 8 and the effective defense of the claim is 10, so the claim says that the
  attack fails and leaves 1 troop with \<open>ai1\<close>; the simulator compares the force with the 5
  troops, captures the cell for \<open>neural\<close> and leaves 3 troops on it. On the same grid
  \<open>processAIAction\<close> sends 7 troops, applies the fort and resolves the attack as specified:
  it fails and leaves 2 troops with \<open>ai1\<close>.
\<close>

theorem simulator_attack_ignores_fort:
  "(t_troops (fortGrid ! 0) * 8) div 10 = 8
   \<and> jsFloorMul double08 (t_troops (fortGrid ! 0)) = 8
   \<and> jsFloorMul double07 (t_troops (fortGrid ! 0)) = 7
   \<and> effectiveDefense (fortGrid ! 1) = 10
   \<and> t_owner (fst (executeAction fortGrid (attackAction (fortGrid ! 0) (fortGrid ! 1))
                      (mkPlayer ''neural'' 500)) ! 1) = Some (ownerOf (mkPlayer ''neural'' 500))
   \<and> t_troops (fst (executeAction fortGrid (attackAction (fortGrid ! 0) (fortGrid ! 1))
                      (mkPlayer ''neural'' 500)) ! 1) = 3
   \<and> \<not> attackResolvedAsSpecified 8 (ownerOf (mkPlayer ''neural'' 500)) (fortGrid ! 0) (fortGrid ! 1)
         (fst (executeAction fortGrid (attackAction (fortGrid ! 0) (fortGrid ! 1))
                 (mkPlayer ''neural'' 500)) ! 0)
         (fst (executeAction fortGrid (attackAction (fortGrid ! 0) (fortGrid ! 1))
                 (mkPlayer ''neural'' 500)) ! 1)
   \<and> attackResolvedAsSpecified 7 (ownerOf (mkPlayer ''neural'' 500)) (fortGrid ! 0) (fortGrid ! 1)
         (fst (processAIAction fortGrid (attackAction (fortGrid ! 0) (fortGrid ! 1))
                 (mkPlayer ''neural'' 500)) ! 0)
         (fst (processAIAction fortGrid (attackAction (fortGrid ! 0) (fortGrid ! 1))
                 (mkPlayer ''neural'' 500)) ! 1)
   \<and> t_owner (fst (processAIAction fortGrid (attackAction (fortGrid ! 0) (fortGrid ! 1))
                      (mkPlayer ''neural'' 500)) ! 1) = Some (ownerOf (mkPlayer ''ai1'' 500))
   \<and> t_troops (fst (processAIAction fortGrid (attackAction (fortGrid ! 0) (fortGrid ! 1))
                      (mkPlayer ''neural'' 500)) ! 1) = 2"
  by (simp add: jsFloorMul_10 executeAction_def executeAction_attack_def processAIAction_def
        processAIAction_attack_def attackAction_def fortGrid_def
        mkTerritory_def mkPlayer_def ownerOf_def ownedBy_def sameCell_def modify_def Let_def
        attackResolvedAsSpecified_def effectiveDefense_def defenseBonusOf_def)

section \<open>Buildings on captured cells\<close>

text \<open>A successful attack resolved by \<open>processAIAction\<close> destroys the building of the captured
  cell unless the cell is a wall, whose building stays.\<close>

lemma processAIAction_attack_building:
  assumes "findIndex (sameCell src) ts = Some i" "findIndex (sameCell tgt) ts = Some j"
    and "jsFloorMul double07 (t_troops (ts ! i)) > effectiveDefense (ts ! j)"
  shows "t_building (processAIAction_attack ts src tgt p ! j)
           = (if t_wall (ts ! j) then t_building (ts ! j) else None)"
proof -
  have "i < length ts" "j < length ts"
    using assms findIndex_Some_bound by blast+
  with assms show ?thesis
    by (cases "i = j")
       (auto simp add: processAIAction_attack_def effectiveDefense_def Let_def modify_def)
qed

text \<open>\<open>executeAction\<close> of the simulator never touches a building: whatever the outcome of the
  attack, every cell keeps the building it had.\<close>

lemma executeAction_attack_building:
  "t_building (executeAction_attack ts src tgt p ! k) = t_building (ts ! k)"
proof (cases "findIndex (sameCell src) ts")
  case None then show ?thesis by (simp add: executeAction_attack_def)
next
  case (Some i)
  note si = this
  show ?thesis
  proof (cases "findIndex (sameCell tgt) ts")
    case None with si show ?thesis by (simp add: executeAction_attack_def)
  next
    case (Some j)
    have "i < length ts" "j < length ts"
      using si Some findIndex_Some_bound by blast+
    with si Some show ?thesis
      by (cases "k = i"; cases "k = j")
         (auto simp add: executeAction_attack_def Let_def modify_def)
  qed
qed

text \<open>A successful attack of the interactive second click (which refuses a wall as target)
  destroys the building of the captured cell.\<close>

lemma secondClick_building:
  assumes "i < length ts" "j < length ts"
    and "\<not> ownedBy ''player1'' (ts ! j)" "withinClickRange (ts ! i) (ts ! j)"
    and "0 < t_troops (ts ! i) div 2" "effectiveDefense (ts ! j) < t_troops (ts ! i) div 2"
  shows "t_building (secondClick ts i j name ! j) = None"
  using assms
  by (cases "i = j")
     (auto simp add: secondClick_def effectiveDefense_def withinClickRange_def Let_def modify_def)

lemma length_secondClick: "length (secondClick ts i j name) = length ts"
  by (simp add: secondClick_def Let_def modify_def)

lemma select_building:
  assumes "findIndex t_isSelected ts = Some i" "j < length ts" "\<not> t_wall (ts ! j)"
    and "\<not> ownedBy ''player1'' (ts ! j)" "withinClickRange (ts ! i) (ts ! j)"
    and "0 < t_troops (ts ! i) div 2" "effectiveDefense (ts ! j) < t_troops (ts ! i) div 2"
  shows "t_building (handleCanvasClick_select ts j name ! j) = None"
proof -
  have i: "i < length ts" using assms(1) findIndex_Some_bound by blast
  have "t_building (secondClick ts i j name ! j) = None"
    using secondClick_building[OF i assms(2,4-7)] .
  with assms(1,3) i assms(2) show ?thesis
    by (cases "i = j")
       (simp_all add: handleCanvasClick_select_def modify_def length_secondClick)
qed

text \<open>
  Claim C5 at a failing input. On \<open>farmGrid\<close> the player \<open>neural\<close> attacks from its cell with
  10 troops the cell of \<open>ai1\<close> that holds 3 troops and a farm and is not a wall. In
  \<open>executeAction\<close> the attack with 8 troops succeeds and the cell goes to \<open>neural\<close> with the
  farm still on it. \<open>processAIAction\<close> on the same grid, and the second click of the human
  player on \<open>clickFarmGrid\<close>, capture the cell and remove the farm.
\<close>

theorem simulator_capture_keeps_building:
  "(t_troops (farmGrid ! 0) * 8) div 10 > effectiveDefense (farmGrid ! 1)
   \<and> jsFloorMul double08 (t_troops (farmGrid ! 0)) > effectiveDefense (farmGrid ! 1)
   \<and> \<not> t_wall (farmGrid ! 1)
   \<and> t_owner (fst (executeAction farmGrid (attackAction (farmGrid ! 0) (farmGrid ! 1))
                      (mkPlayer ''neural'' 500)) ! 1) = Some (ownerOf (mkPlayer ''neural'' 500))
   \<and> t_building (fst (executeAction farmGrid (attackAction (farmGrid ! 0) (farmGrid ! 1))
                      (mkPlayer ''neural'' 500)) ! 1) = Some \<lparr>b_type = Farm, b_level = 1\<rparr>
   \<and> t_owner (fst (processAIAction farmGrid (attackAction (farmGrid ! 0) (farmGrid ! 1))
                      (mkPlayer ''neural'' 500)) ! 1) = Some (ownerOf (mkPlayer ''neural'' 500))
   \<and> t_building (fst (processAIAction farmGrid (attackAction (farmGrid ! 0) (farmGrid ! 1))
                      (mkPlayer ''neural'' 500)) ! 1) = None
   \<and> t_owner (handleCanvasClick_select clickFarmGrid 1 ''Ann'' ! 1) = Some (humanOwner ''Ann'')
   \<and> t_building (handleCanvasClick_select clickFarmGrid 1 ''Ann'' ! 1) = None"
  by (simp add: jsFloorMul_10 executeAction_def executeAction_attack_def processAIAction_def
        processAIAction_attack_def handleCanvasClick_select_def secondClick_def
        attackAction_def farmGrid_def clickFarmGrid_def rangeBonusOf_def humanOwner_def
        mkTerritory_def mkPlayer_def ownerOf_def ownedBy_def sameCell_def modify_def Let_def
        effectiveDefense_def defenseBonusOf_def)

section \<open>The second click of the interactive client\<close>

lemma secondClick_attack:
  assumes "i < length ts" "j < length ts" "i \<noteq> j"
    and "\<not> ownedBy ''player1'' (ts ! j)" "withinClickRange (ts ! i) (ts ! j)"
    and "0 < t_troops (ts ! i) div 2"
  shows "attackResolvedAsSpecified (t_troops (ts ! i) div 2) (humanOwner name) (ts ! i) (ts ! j)
           (secondClick ts i j name ! i) (secondClick ts i j name ! j)"
  using assms
  by (simp add: secondClick_def attackResolvedAsSpecified_def effectiveDefense_def
        withinClickRange_def Let_def modify_def)

lemma select_attack:
  assumes "findIndex t_isSelected ts = Some i" "j < length ts" "i \<noteq> j" "\<not> t_wall (ts ! j)"
    and "\<not> ownedBy ''player1'' (ts ! j)" "withinClickRange (ts ! i) (ts ! j)"
    and "0 < t_troops (ts ! i) div 2"
  shows "attackResolvedAsSpecified (t_troops (ts ! i) div 2) (humanOwner name) (ts ! i) (ts ! j)
           (handleCanvasClick_select ts j name ! i) (handleCanvasClick_select ts j name ! j)"
proof -
  have i: "i < length ts" using assms(1) findIndex_Some_bound by blast
  have "attackResolvedAsSpecified (t_troops (ts ! i) div 2) (humanOwner name) (ts ! i) (ts ! j)
           (secondClick ts i j name ! i) (secondClick ts i j name ! j)"
    using secondClick_attack[OF i assms(2,3,5-7)] .
  with assms(1-4) i show ?thesis
    by (simp add: handleCanvasClick_select_def modify_def length_secondClick
          attackResolvedAsSpecified_def)
qed

text \<open>
  Claim C2. In the second-click attack of the interactive client (a cell is selected, the
  clicked cell is another cell, not a wall, not the human player's, within range, and half of
  the source's troops is at least 1) the outcome is the specified rule with the attacking
  force \<open>\<lfloor>source.troops / 2\<rfloor>\<close>, a function of the source's troops, the target's troops and
  the target's fort level. With 10 troops against 3 troops and no fort the attack succeeds,
  the target holds 2 troops and belongs to the human player (id \<open>player1\<close>); with 10 troops
  against 3 troops behind a level-1 fort the attack fails, the target keeps its owner and
  holds 1 troop, and the source holds 5.
\<close>

theorem second_click_attack:
  assumes "findIndex t_isSelected ts = Some i" "j < length ts" "i \<noteq> j" "\<not> t_wall (ts ! j)"
    and "\<not> ownedBy ''player1'' (ts ! j)" "withinClickRange (ts ! i) (ts ! j)"
    and "0 < t_troops (ts ! i) div 2"
  shows "attackResolvedAsSpecified (t_troops (ts ! i) div 2) (humanOwner name) (ts ! i) (ts ! j)
           (handleCanvasClick_select ts j name ! i) (handleCanvasClick_select ts j name ! j)
       \<and> (t_troops (ts ! i) = 10 \<and> t_troops (ts ! j) = 3 \<and> defenseBonusOf (ts ! j) = 0 \<longrightarrow>
            t_troops (handleCanvasClick_select ts j name ! j) = 2
            \<and> t_owner (handleCanvasClick_select ts j name ! j) = Some (humanOwner name)
            \<and> o_id (humanOwner name) = ''player1'')
       \<and> (t_troops (ts ! i) = 10 \<and> t_troops (ts ! j) = 3 \<and> defenseBonusOf (ts ! j) = 1 \<longrightarrow>
            t_troops (handleCanvasClick_select ts j name ! j) = 1
            \<and> t_owner (handleCanvasClick_select ts j name ! j) = t_owner (ts ! j)
            \<and> t_troops (handleCanvasClick_select ts j name ! i) = 5)"
  using select_attack[OF assms, of name]
  by (auto simp add: attackResolvedAsSpecified_def effectiveDefense_def humanOwner_def)

text \<open>The two cases on \<open>clickFarmGrid\<close> (no fort) and \<open>clickFortGrid\<close> (a level-1 fort).\<close>

theorem second_click_attack_witness:
  "t_troops (handleCanvasClick_select clickFarmGrid 1 ''Ann'' ! 1) = 2
   \<and> t_owner (handleCanvasClick_select clickFarmGrid 1 ''Ann'' ! 1) = Some (humanOwner ''Ann'')
   \<and> t_troops (handleCanvasClick_select clickFortGrid 1 ''Ann'' ! 1) = 1
   \<and> t_owner (handleCanvasClick_select clickFortGrid 1 ''Ann'' ! 1) = t_owner (clickFortGrid ! 1)
   \<and> t_troops (handleCanvasClick_select clickFortGrid 1 ''Ann'' ! 0) = 5"
  using second_click_attack[of clickFarmGrid 0 1 "''Ann''"]
        second_click_attack[of clickFortGrid 0 1 "''Ann''"]
  by (simp add: clickFarmGrid_def clickFortGrid_def mkTerritory_def mkPlayer_def
        ownerOf_def humanOwner_def ownedBy_def defenseBonusOf_def
        withinClickRange_def rangeBonusOf_def)

section \<open>Illegal actions\<close>

lemma goldOrZero_low_process:
  assumes "goldOrZero p < buildingCosts bt"
  shows "processAIAction_build ts tgt bt p = (ts, p)"
  using assms
  by (auto simp: processAIAction_build_def goldOrZero_def Let_def split: option.splits)

lemma goldOrZero_low_execute:
  assumes "goldOrZero p < buildingCosts bt"
  shows "executeAction_build ts tgt bt p = (ts, p)"
  using assms
  by (auto simp: executeAction_build_def goldOrZero_def Let_def split: option.splits)

lemma wall_on_owned_process:
  assumes "findIndex (sameCell tgt) ts = Some i" "t_owner (ts ! i) \<noteq> None"
  shows "fst (processAIAction_build ts tgt Wall p) = ts"
  using assms
  by (auto simp: processAIAction_build_def Let_def split: option.splits)

lemma wall_on_owned_execute:
  assumes "findIndex (sameCell tgt) ts = Some i" "t_owner (ts ! i) \<noteq> None"
  shows "fst (executeAction_build ts tgt Wall p) = ts"
  using assms
  by (auto simp: executeAction_build_def Let_def split: option.splits)

lemma missing_process: "missingTerritory ts d \<Longrightarrow> fst (processAIAction ts d p) = ts"
  by (auto simp: missingTerritory_def processAIAction_def processAIAction_attack_def
        processAIAction_defend_def processAIAction_build_def
        split: option.splits ActionKind.splits)

lemma missing_execute: "missingTerritory ts d \<Longrightarrow> fst (executeAction ts d p) = ts"
  by (auto simp: missingTerritory_def executeAction_def executeAction_attack_def
        executeAction_defend_def executeAction_build_def
        split: option.splits ActionKind.splits)

text \<open>
  Claim C3, as the code has it. A decision whose source or target coordinate matches no
  territory, a build the player cannot pay, and a wall build on a cell that has an owner leave
  the grid unchanged, in \<open>processAIAction\<close> and in \<open>executeAction\<close>. Neither function can raise:
  the source has no \<^verbatim>\<open>throw\<close> and reads only indices it has found, and the model is a total
  function without an error result.
\<close>

theorem rejected_actions_leave_grid:
  assumes "missingTerritory ts d \<or> insufficientGold p d \<or> wallOnOwnedCell ts d"
  shows "fst (processAIAction ts d p) = ts \<and> fst (executeAction ts d p) = ts"
  using assms
proof (elim disjE)
  assume "missingTerritory ts d"
  then show ?thesis using missing_process missing_execute by blast
next
  assume "insufficientGold p d"
  then show ?thesis
    by (auto simp: insufficientGold_def processAIAction_def executeAction_def
          goldOrZero_low_process goldOrZero_low_execute split: option.splits)
next
  assume "wallOnOwnedCell ts d"
  then show ?thesis
    by (auto simp: wallOnOwnedCell_def processAIAction_def executeAction_def
          wall_on_owned_process wall_on_owned_execute split: option.splits)
qed

text \<open>An attack on the coordinate (5,5), which is not in \<open>ownedGrid\<close>; a fort for a player with
  99 gold; a wall on the cell of \<open>ai2\<close>.\<close>

theorem rejected_actions_witness:
  "fst (processAIAction ownedGrid (attackAction (ownedGrid ! 0) (mkTerritory 5 5 None 1 None False))
          (mkPlayer ''ai1'' 500)) = ownedGrid
   \<and> fst (executeAction ownedGrid (buildAction (ownedGrid ! 0) Fort) (mkPlayer ''ai1'' 99)) = ownedGrid
   \<and> fst (executeAction ownedGrid (buildAction (ownedGrid ! 1) Wall) (mkPlayer ''ai1'' 500)) = ownedGrid"
  using rejected_actions_leave_grid[of ownedGrid
          "attackAction (ownedGrid ! 0) (mkTerritory 5 5 None 1 None False)" "mkPlayer ''ai1'' 500"]
        rejected_actions_leave_grid[of ownedGrid "buildAction (ownedGrid ! 0) Fort" "mkPlayer ''ai1'' 99"]
        rejected_actions_leave_grid[of ownedGrid "buildAction (ownedGrid ! 1) Wall" "mkPlayer ''ai1'' 500"]
  by (simp add: missingTerritory_def insufficientGold_def wallOnOwnedCell_def attackAction_def
        buildAction_def ownedGrid_def mkTerritory_def mkPlayer_def sameCell_def goldOrZero_def
        ownerOf_def)

text \<open>The claim as stated fails for the two other kinds of illegal action. A fort built by
  \<open>ai1\<close> on its cell of \<open>farmGrid\<close>, which has a farm, replaces the farm; an attack by \<open>ai1\<close> on
  the wall of \<open>wallGrid\<close> is resolved like any attack. Both change the grid.\<close>

theorem illegal_actions_counterexample:
  "t_building (farmGrid ! 1) = Some \<lparr>b_type = Farm, b_level = 1\<rparr>
   \<and> fst (processAIAction farmGrid (buildAction (farmGrid ! 1) Fort) (mkPlayer ''ai1'' 500)) \<noteq> farmGrid
   \<and> fst (executeAction farmGrid (buildAction (farmGrid ! 1) Fort) (mkPlayer ''ai1'' 500)) \<noteq> farmGrid
   \<and> t_wall (wallGrid ! 0)
   \<and> fst (processAIAction wallGrid (attackAction (wallGrid ! 1) (wallGrid ! 0)) (mkPlayer ''ai1'' 500))
       \<noteq> wallGrid
   \<and> fst (executeAction wallGrid (attackAction (wallGrid ! 1) (wallGrid ! 0)) (mkPlayer ''ai1'' 500))
       \<noteq> wallGrid"
  by (simp add: jsFloorMul_10 processAIAction_def processAIAction_build_def processAIAction_attack_def
        executeAction_def executeAction_build_def executeAction_attack_def
        buildAction_def attackAction_def farmGrid_def wallGrid_def
        mkTerritory_def mkPlayer_def ownerOf_def ownedBy_def sameCell_def modify_def Let_def
        defenseBonusOf_def)

section \<open>Walls\<close>

text \<open>
  Claim C4 at a failing input. The wall of \<open>wallGrid\<close> has no building and no troops. It
  counts as a territory of \<open>neural\<close> and has a neighbour of another player, so
  \<open>getLegalActions\<close> offers to defend it; \<open>executeAction\<close> and \<open>processAIAction\<close> then put 5
  troops on the wall. An attack on the wall resolved by \<open>processAIAction\<close> leaves the 7
  attackers on it.
\<close>

theorem wall_gets_troops:
  "t_wall (wallGrid ! 0) \<and> t_troops (wallGrid ! 0) = 0 \<and> t_building (wallGrid ! 0) = None
   \<and> defendAction (wallGrid ! 0) \<in> set (getLegalActions wallGrid (mkPlayer ''neural'' 500))
   \<and> t_wall (fst (executeAction wallGrid (defendAction (wallGrid ! 0)) (mkPlayer ''neural'' 500)) ! 0)
   \<and> t_troops (fst (executeAction wallGrid (defendAction (wallGrid ! 0)) (mkPlayer ''neural'' 500)) ! 0) = 5
   \<and> t_wall (fst (processAIAction wallGrid (defendAction (wallGrid ! 0)) (mkPlayer ''neural'' 500)) ! 0)
   \<and> t_troops (fst (processAIAction wallGrid (defendAction (wallGrid ! 0)) (mkPlayer ''neural'' 500)) ! 0) = 5
   \<and> t_wall (fst (processAIAction wallGrid (attackAction (wallGrid ! 1) (wallGrid ! 0))
                     (mkPlayer ''ai1'' 500)) ! 0)
   \<and> t_troops (fst (processAIAction wallGrid (attackAction (wallGrid ! 1) (wallGrid ! 0))
                       (mkPlayer ''ai1'' 500)) ! 0) = 7"
  by (simp add: jsFloorMul_10 processAIAction_def processAIAction_defend_def processAIAction_attack_def
        executeAction_def executeAction_defend_def getLegalActions_def isBorder_def
        findAdjacentTerritories_def inRange_def attacksFrom_def goldOrZero_def
        findNearbyEmptyTerritories_def buildingKinds_def defenseBonusOf_def
        defendAction_def buildAction_def attackAction_def wallGrid_def
        mkTerritory_def mkPlayer_def ownerOf_def ownedBy_def sameCell_def modify_def Let_def)

section \<open>Legal attacks\<close>

lemma attacksFrom_sound:
  assumes "a \<in> set (attacksFrom ts p s)"
  shows "\<exists>t. a = attackAction s t \<and> t \<in> set ts \<and> \<not> t_troops s < 5
             \<and> \<not> t_troops s \<le> t_troops t \<and> \<not> t_wall t \<and> \<not> ownedBy (p_id p) t
             \<and> inRange s 2 t"
  using assms
  by (auto simp: attacksFrom_def findAdjacentTerritories_def split: if_splits)

lemma attacksFrom_complete:
  assumes "t \<in> set ts" "5 \<le> t_troops s" "t_troops t < t_troops s" "\<not> t_wall t"
    "\<not> ownedBy (p_id p) t" "inRange s 2 t"
  shows "attackAction s t \<in> set (attacksFrom ts p s)"
  using assms
  by (auto simp: attacksFrom_def findAdjacentTerritories_def)

lemma legal_attack_cases:
  assumes "a \<in> set (getLegalActions ts p)" "d_action a = Attack"
  shows "\<exists>s \<in> set ts. ownedBy (p_id p) s \<and> a \<in> set (attacksFrom ts p s)"
  using assms
  by (auto simp: getLegalActions_def Let_def defendAction_def buildAction_def split: if_splits)

text \<open>
  Claim C6. Every attack that \<open>getLegalActions\<close> enumerates for a player has a source and a
  target in the grid; the source is a territory of the player, it does not have fewer than 5
  troops, and its troop count is not less than or equal to the target's; the target is not a
  wall and is not a territory of the player.
\<close>

theorem legal_attacks:
  assumes "a \<in> set (getLegalActions ts p)" "d_action a = Attack"
  shows "\<exists>s t. d_source a = Some s \<and> d_target a = Some t \<and> s \<in> set ts \<and> t \<in> set ts
           \<and> ownedBy (p_id p) s
           \<and> \<not> t_troops s < 5 \<and> \<not> t_troops s \<le> t_troops t
           \<and> \<not> t_wall t \<and> \<not> ownedBy (p_id p) t"
proof -
  from legal_attack_cases[OF assms] obtain s where
    s: "s \<in> set ts" "ownedBy (p_id p) s" "a \<in> set (attacksFrom ts p s)" by blast
  from attacksFrom_sound[OF s(3)] obtain t where
    t: "a = attackAction s t" "t \<in> set ts" "\<not> t_troops s < 5" "\<not> t_troops s \<le> t_troops t"
       "\<not> t_wall t" "\<not> ownedBy (p_id p) t" by blast
  from t(1) have "d_source a = Some s" "d_target a = Some t" by (simp_all add: attackAction_def)
  with s t show ?thesis by blast
qed

text \<open>On \<open>farmGrid\<close> the attack from the cell of \<open>neural\<close> (10 troops) on the cell of \<open>ai1\<close>
  (3 troops) is enumerated.\<close>

theorem legal_attacks_witness:
  "attackAction (farmGrid ! 0) (farmGrid ! 1)
     \<in> set (getLegalActions farmGrid (mkPlayer ''neural'' 500))
   \<and> (\<exists>s t. d_source (attackAction (farmGrid ! 0) (farmGrid ! 1)) = Some s
          \<and> d_target (attackAction (farmGrid ! 0) (farmGrid ! 1)) = Some t
          \<and> s \<in> set farmGrid \<and> t \<in> set farmGrid
          \<and> ownedBy (p_id (mkPlayer ''neural'' 500)) s
          \<and> \<not> t_troops s < 5 \<and> \<not> t_troops s \<le> t_troops t
          \<and> \<not> t_wall t \<and> \<not> ownedBy (p_id (mkPlayer ''neural'' 500)) t)"
proof -
  have mem: "attackAction (farmGrid ! 0) (farmGrid ! 1)
               \<in> set (getLegalActions farmGrid (mkPlayer ''neural'' 500))"
    by (simp add: getLegalActions_def isBorder_def findAdjacentTerritories_def inRange_def
          attacksFrom_def goldOrZero_def findNearbyEmptyTerritories_def buildingKinds_def
          defendAction_def buildAction_def attackAction_def farmGrid_def
          mkTerritory_def mkPlayer_def ownerOf_def ownedBy_def Let_def)
  have act: "d_action (attackAction (farmGrid ! 0) (farmGrid ! 1)) = Attack"
    by (simp add: attackAction_def)
  from legal_attacks[OF mem act] mem show ?thesis by blast
qed

section \<open>The exploration rate\<close>

text \<open>Bounds on the powers of the decay factor 0.995, by squaring with twelve decimals:
  \<open>0.995 ^ 459\<close> is above 0.1 and \<open>0.995 ^ 460\<close> is below.\<close>

lemma pow_lower_mult:
  fixes d :: real
  assumes "a \<le> d ^ m" "b \<le> d ^ n" "0 \<le> a" "0 \<le> b" "c \<le> a * b"
  shows "c \<le> d ^ (m + n)"
proof -
  have "a * b \<le> d ^ m * d ^ n"
    using assms(1-4) by (intro mult_mono) auto
  with assms(5) show ?thesis by (simp add: power_add)
qed

lemma pow_upper_mult:
  fixes d :: real
  assumes "d ^ m \<le> a" "d ^ n \<le> b" "0 \<le> d" "a * b \<le> c"
  shows "d ^ (m + n) \<le> c"
proof -
  have "0 \<le> d ^ m" "0 \<le> d ^ n"
    using assms(3) by simp_all
  with assms(1,2) have "d ^ m * d ^ n \<le> a * b"
    by (intro mult_mono) auto
  with assms(4) show ?thesis by (simp add: power_add)
qed

lemma epsilonDecay_nonneg: "0 \<le> epsilonDecay"
  by (simp add: epsilonDecay_def)

lemma decay_lower_1: "995000000000 / 1000000000000 \<le> epsilonDecay ^ 1"
  by (simp add: epsilonDecay_def)

lemma decay_upper_1: "epsilonDecay ^ 1 \<le> 995000000000 / 1000000000000"
  by (simp add: epsilonDecay_def)

lemma decay_lower_2: "990025000000 / 1000000000000 \<le> epsilonDecay ^ 2"
proof -
  have "990025000000 / 1000000000000 \<le> epsilonDecay ^ (1 + 1)"
    by (rule pow_lower_mult[OF decay_lower_1 decay_lower_1]) simp_all
  then show ?thesis by (simp add: power2_eq_square)
qed

lemma decay_upper_2: "epsilonDecay ^ 2 \<le> 990025000000 / 1000000000000"
proof -
  have "epsilonDecay ^ (1 + 1) \<le> 990025000000 / 1000000000000"
    by (rule pow_upper_mult[OF decay_upper_1 decay_upper_1 epsilonDecay_nonneg]) simp
  then show ?thesis by (simp add: power2_eq_square)
qed

lemma decay_lower_4: "980149500625 / 1000000000000 \<le> epsilonDecay ^ 4"
proof -
  have "980149500625 / 1000000000000 \<le> epsilonDecay ^ (2 + 2)"
    by (rule pow_lower_mult[OF decay_lower_2 decay_lower_2]) simp_all
  then show ?thesis by simp
qed

lemma decay_upper_4: "epsilonDecay ^ 4 \<le> 980149500625 / 1000000000000"
proof -
  have "epsilonDecay ^ (2 + 2) \<le> 980149500625 / 1000000000000"
    by (rule pow_upper_mult[OF decay_upper_2 decay_upper_2 epsilonDecay_nonneg]) simp
  then show ?thesis by simp
qed

lemma decay_lower_8: "960693043575 / 1000000000000 \<le> epsilonDecay ^ 8"
proof -
  have "960693043575 / 1000000000000 \<le> epsilonDecay ^ (4 + 4)"
    by (rule pow_lower_mult[OF decay_lower_4 decay_lower_4]) simp_all
  then show ?thesis by simp
qed

lemma decay_upper_8: "epsilonDecay ^ 8 \<le> 960693043576 / 1000000000000"
proof -
  have "epsilonDecay ^ (4 + 4) \<le> 960693043576 / 1000000000000"
    by (rule pow_upper_mult[OF decay_upper_4 decay_upper_4 epsilonDecay_nonneg]) simp
  then show ?thesis by simp
qed

lemma decay_lower_16: "922931123973 / 1000000000000 \<le> epsilonDecay ^ 16"
proof -
  have "922931123973 / 1000000000000 \<le> epsilonDecay ^ (8 + 8)"
    by (rule pow_lower_mult[OF decay_lower_8 decay_lower_8]) simp_all
  then show ?thesis by simp
qed

lemma decay_upper_16: "epsilonDecay ^ 16 \<le> 922931123976 / 1000000000000"
proof -
  have "epsilonDecay ^ (8 + 8) \<le> 922931123976 / 1000000000000"
    by (rule pow_upper_mult[OF decay_upper_8 decay_upper_8 epsilonDecay_nonneg]) simp
  then show ?thesis by simp
qed

lemma decay_lower_32: "851801859598 / 1000000000000 \<le> epsilonDecay ^ 32"
proof -
  have "851801859598 / 1000000000000 \<le> epsilonDecay ^ (16 + 16)"
    by (rule pow_lower_mult[OF decay_lower_16 decay_lower_16]) simp_all
  then show ?thesis by simp
qed

lemma decay_upper_32: "epsilonDecay ^ 32 \<le> 851801859604 / 1000000000000"
proof -
  have "epsilonDecay ^ (16 + 16) \<le> 851801859604 / 1000000000000"
    by (rule pow_upper_mult[OF decay_upper_16 decay_upper_16 epsilonDecay_nonneg]) simp
  then show ?thesis by simp
qed

lemma decay_lower_64: "725566408014 / 1000000000000 \<le> epsilonDecay ^ 64"
proof -
  have "725566408014 / 1000000000000 \<le> epsilonDecay ^ (32 + 32)"
    by (rule pow_lower_mult[OF decay_lower_32 decay_lower_32]) simp_all
  then show ?thesis by simp
qed

lemma decay_upper_64: "epsilonDecay ^ 64 \<le> 725566408025 / 1000000000000"
proof -
  have "epsilonDecay ^ (32 + 32) \<le> 725566408025 / 1000000000000"
    by (rule pow_upper_mult[OF decay_upper_32 decay_upper_32 epsilonDecay_nonneg]) simp
  then show ?thesis by simp
qed

lemma decay_lower_128: "526446612438 / 1000000000000 \<le> epsilonDecay ^ 128"
proof -
  have "526446612438 / 1000000000000 \<le> epsilonDecay ^ (64 + 64)"
    by (rule pow_lower_mult[OF decay_lower_64 decay_lower_64]) simp_all
  then show ?thesis by simp
qed

lemma decay_upper_128: "epsilonDecay ^ 128 \<le> 526446612455 / 1000000000000"
proof -
  have "epsilonDecay ^ (64 + 64) \<le> 526446612455 / 1000000000000"
    by (rule pow_upper_mult[OF decay_upper_64 decay_upper_64 epsilonDecay_nonneg]) simp
  then show ?thesis by simp
qed

lemma decay_lower_256: "277146035747 / 1000000000000 \<le> epsilonDecay ^ 256"
proof -
  have "277146035747 / 1000000000000 \<le> epsilonDecay ^ (128 + 128)"
    by (rule pow_lower_mult[OF decay_lower_128 decay_lower_128]) simp_all
  then show ?thesis by simp
qed

lemma decay_upper_256: "epsilonDecay ^ 256 \<le> 277146035766 / 1000000000000"
proof -
  have "epsilonDecay ^ (128 + 128) \<le> 277146035766 / 1000000000000"
    by (rule pow_upper_mult[OF decay_upper_128 decay_upper_128 epsilonDecay_nonneg]) simp
  then show ?thesis by simp
qed

lemma decay_lower_384: "145902591669 / 1000000000000 \<le> epsilonDecay ^ 384"
proof -
  have "145902591669 / 1000000000000 \<le> epsilonDecay ^ (256 + 128)"
    by (rule pow_lower_mult[OF decay_lower_256 decay_lower_128]) simp_all
  then show ?thesis by simp
qed

lemma decay_upper_384: "epsilonDecay ^ 384 \<le> 145902591685 / 1000000000000"
proof -
  have "epsilonDecay ^ (256 + 128) \<le> 145902591685 / 1000000000000"
    by (rule pow_upper_mult[OF decay_upper_256 decay_upper_128 epsilonDecay_nonneg]) simp
  then show ?thesis by simp
qed

lemma decay_lower_448: "105862019357 / 1000000000000 \<le> epsilonDecay ^ 448"
proof -
  have "105862019357 / 1000000000000 \<le> epsilonDecay ^ (384 + 64)"
    by (rule pow_lower_mult[OF decay_lower_384 decay_lower_64]) simp_all
  then show ?thesis by simp
qed

lemma decay_upper_448: "epsilonDecay ^ 448 \<le> 105862019371 / 1000000000000"
proof -
  have "epsilonDecay ^ (384 + 64) \<le> 105862019371 / 1000000000000"
    by (rule pow_upper_mult[OF decay_upper_384 decay_upper_64 epsilonDecay_nonneg]) simp
  then show ?thesis by simp
qed

lemma decay_lower_456: "101700905575 / 1000000000000 \<le> epsilonDecay ^ 456"
proof -
  have "101700905575 / 1000000000000 \<le> epsilonDecay ^ (448 + 8)"
    by (rule pow_lower_mult[OF decay_lower_448 decay_lower_8]) simp_all
  then show ?thesis by simp
qed

lemma decay_upper_456: "epsilonDecay ^ 456 \<le> 101700905589 / 1000000000000"
proof -
  have "epsilonDecay ^ (448 + 8) \<le> 101700905589 / 1000000000000"
    by (rule pow_upper_mult[OF decay_upper_448 decay_upper_8 epsilonDecay_nonneg]) simp
  then show ?thesis by simp
qed

lemma decay_lower_458: "100686439041 / 1000000000000 \<le> epsilonDecay ^ 458"
proof -
  have "100686439041 / 1000000000000 \<le> epsilonDecay ^ (456 + 2)"
    by (rule pow_lower_mult[OF decay_lower_456 decay_lower_2]) simp_all
  then show ?thesis by simp
qed

lemma decay_upper_458: "epsilonDecay ^ 458 \<le> 100686439056 / 1000000000000"
proof -
  have "epsilonDecay ^ (456 + 2) \<le> 100686439056 / 1000000000000"
    by (rule pow_upper_mult[OF decay_upper_456 decay_upper_2 epsilonDecay_nonneg]) simp
  then show ?thesis by simp
qed

lemma decay_lower_459: "100183006845 / 1000000000000 \<le> epsilonDecay ^ 459"
proof -
  have "100183006845 / 1000000000000 \<le> epsilonDecay ^ (458 + 1)"
    by (rule pow_lower_mult[OF decay_lower_458 decay_lower_1]) simp_all
  then show ?thesis by simp
qed

lemma decay_upper_459: "epsilonDecay ^ 459 \<le> 100183006861 / 1000000000000"
proof -
  have "epsilonDecay ^ (458 + 1) \<le> 100183006861 / 1000000000000"
    by (rule pow_upper_mult[OF decay_upper_458 decay_upper_1 epsilonDecay_nonneg]) simp
  then show ?thesis by simp
qed

lemma decay_lower_460: "99682091812 / 1000000000000 \<le> epsilonDecay ^ 460"
proof -
  have "99682091812 / 1000000000000 \<le> epsilonDecay ^ (456 + 4)"
    by (rule pow_lower_mult[OF decay_lower_456 decay_lower_4]) simp_all
  then show ?thesis by simp
qed

lemma decay_upper_460: "epsilonDecay ^ 460 \<le> 99682091827 / 1000000000000"
proof -
  have "epsilonDecay ^ (456 + 4) \<le> 99682091827 / 1000000000000"
    by (rule pow_upper_mult[OF decay_upper_456 decay_upper_4 epsilonDecay_nonneg]) simp
  then show ?thesis by simp
qed

lemma epsilonDecay_459: "epsilonMin < epsilonDecay ^ 459"
  using decay_lower_459 by (simp add: epsilonMin_def)

lemma epsilonDecay_460: "epsilonDecay ^ 460 < epsilonMin"
  using decay_upper_460 by (simp add: epsilonMin_def)

lemma epsilonDecay_le_one: "epsilonDecay \<le> 1"
  by (simp add: epsilonDecay_def)

lemma trainOnBatch_completes:
  assumes "modelsReady ai" "batchSize \<le> length (replayMemory ai)"
  shows "fst (trainOnBatch TfCompletes ai) = Returns"
    "modelsReady (snd (trainOnBatch TfCompletes ai))"
    "replayMemory (snd (trainOnBatch TfCompletes ai)) = replayMemory ai"
    "trainingStep (snd (trainOnBatch TfCompletes ai)) = trainingStep ai + 1"
    "epsilon (snd (trainOnBatch TfCompletes ai))
       = (if epsilon ai > epsilonMin then epsilon ai * epsilonDecay else epsilon ai)"
  using assms by (simp_all add: trainOnBatch_def Let_def)

text \<open>A call in which the library throws before the decay changes nothing.\<close>

lemma trainOnBatch_throws:
  assumes "modelsReady ai" "batchSize \<le> length (replayMemory ai)"
  shows "trainOnBatch TfThrowsBeforeDecay ai = (Throws, ai)"
  using assms by (simp add: trainOnBatch_def)

lemma trainBatches_Suc:
  assumes "fst (trainBatches (replicate N tf) ai) = Returns"
  shows "trainBatches (replicate (Suc N) tf) ai
           = trainOnBatch tf (snd (trainBatches (replicate N tf) ai))"
proof -
  have "replicate (Suc N) tf = replicate N tf @ [tf]"
    by (simp add: replicate_append_same)
  then have "trainBatches (replicate (Suc N) tf) ai
               = (case trainBatches (replicate N tf) ai of
                    (c, st) \<Rightarrow> (case c of Throws \<Rightarrow> (Throws, st) | Returns \<Rightarrow> trainOnBatch tf st))"
    by (simp add: trainBatches_def split: prod.splits del: replicate_Suc)
  with assms show ?thesis
    by (cases "trainBatches (replicate N tf) ai") simp
qed

lemma updates_keep_ready:
  assumes "modelsReady ai" "batchSize \<le> length (replayMemory ai)"
  shows "fst (trainBatches (replicate N TfCompletes) ai) = Returns
       \<and> modelsReady (snd (trainBatches (replicate N TfCompletes) ai))
       \<and> replayMemory (snd (trainBatches (replicate N TfCompletes) ai)) = replayMemory ai
       \<and> trainingStep (snd (trainBatches (replicate N TfCompletes) ai)) = trainingStep ai + N"
proof (induction N)
  case 0
  show ?case using assms by (simp add: trainBatches_def)
next
  case (Suc N)
  then have rdy: "modelsReady (snd (trainBatches (replicate N TfCompletes) ai))"
       "batchSize \<le> length (replayMemory (snd (trainBatches (replicate N TfCompletes) ai)))"
    using assms(2) by simp_all
  from Suc have "trainBatches (replicate (Suc N) TfCompletes) ai
                   = trainOnBatch TfCompletes (snd (trainBatches (replicate N TfCompletes) ai))"
    by (intro trainBatches_Suc) simp
  with trainOnBatch_completes[OF rdy] Suc show ?case by simp
qed

lemma epsilon_step:
  assumes "modelsReady ai" "batchSize \<le> length (replayMemory ai)"
  shows "epsilon (snd (trainBatches (replicate (Suc N) TfCompletes) ai))
           = (if epsilon (snd (trainBatches (replicate N TfCompletes) ai)) > epsilonMin
              then epsilon (snd (trainBatches (replicate N TfCompletes) ai)) * epsilonDecay
              else epsilon (snd (trainBatches (replicate N TfCompletes) ai)))"
proof -
  note keep = updates_keep_ready[OF assms, of N]
  from keep have rdy: "modelsReady (snd (trainBatches (replicate N TfCompletes) ai))"
       "batchSize \<le> length (replayMemory (snd (trainBatches (replicate N TfCompletes) ai)))"
    using assms(2) by simp_all
  from keep have "trainBatches (replicate (Suc N) TfCompletes) ai
                   = trainOnBatch TfCompletes (snd (trainBatches (replicate N TfCompletes) ai))"
    by (intro trainBatches_Suc) simp
  with trainOnBatch_completes(5)[OF rdy] show ?thesis by simp
qed

lemma epsilon_decaying:
  assumes "modelsReady ai" "batchSize \<le> length (replayMemory ai)" "epsilon ai = 1" "N \<le> 460"
  shows "epsilon (snd (trainBatches (replicate N TfCompletes) ai)) = epsilonDecay ^ N"
  using assms(4)
proof (induction N)
  case 0
  show ?case using assms(3) by (simp add: trainBatches_def)
next
  case (Suc N)
  then have eq: "epsilon (snd (trainBatches (replicate N TfCompletes) ai)) = epsilonDecay ^ N"
    and "N \<le> 459" by simp_all
  have "epsilonDecay ^ 459 \<le> epsilonDecay ^ N"
    using \<open>N \<le> 459\<close> epsilonDecay_nonneg epsilonDecay_le_one by (intro power_decreasing) auto
  with epsilonDecay_459 have gt: "epsilonMin < epsilonDecay ^ N" by linarith
  show ?case
    using epsilon_step[OF assms(1,2), of N] eq gt by (simp del: replicate_Suc)
qed

lemma epsilon_settled:
  assumes "modelsReady ai" "batchSize \<le> length (replayMemory ai)" "epsilon ai = 1" "460 \<le> N"
  shows "epsilon (snd (trainBatches (replicate N TfCompletes) ai)) = epsilonDecay ^ 460"
  using assms(4)
proof (induction N rule: nat_induct_at_least)
  case base
  show ?case using epsilon_decaying[OF assms(1-3), of 460] by simp
next
  case (Suc N)
  show ?case
    using epsilon_step[OF assms(1,2), of N] Suc.IH epsilonDecay_460 by (simp del: replicate_Suc)
qed

text \<open>Start from epsilon 1.0 with both networks set and at least one batch in the memory, and
  let the library calls of \<open>N\<close> calls of \<open>trainOnBatch\<close> complete. All \<open>N\<close> calls return, the
  step counter has advanced by \<open>N\<close> and epsilon is \<open>0.995 ^ min N 460\<close>: the update multiplies
  epsilon by 0.995 only while it is above 0.1, and \<open>0.995 ^ 460\<close> is the first power not above
  0.1. Up to 459 updates this is \<open>max 0.1 (1.0 \<times> 0.995 ^ N)\<close>.\<close>

lemma epsilon_after_updates:
  assumes "modelsReady ai" "batchSize \<le> length (replayMemory ai)" "epsilon ai = 1"
  shows "fst (trainBatches (replicate N TfCompletes) ai) = Returns"
    and "trainingStep (snd (trainBatches (replicate N TfCompletes) ai)) = trainingStep ai + N"
    and "epsilon (snd (trainBatches (replicate N TfCompletes) ai)) = epsilonDecay ^ (min N 460)"
    and "N \<le> 459 \<Longrightarrow> epsilon (snd (trainBatches (replicate N TfCompletes) ai))
                         = max epsilonMin (1.0 * epsilonDecay ^ N)"
proof -
  show "fst (trainBatches (replicate N TfCompletes) ai) = Returns"
    and "trainingStep (snd (trainBatches (replicate N TfCompletes) ai)) = trainingStep ai + N"
    using updates_keep_ready[OF assms(1,2), of N] by simp_all
  show eps: "epsilon (snd (trainBatches (replicate N TfCompletes) ai)) = epsilonDecay ^ (min N 460)"
  proof (cases "N \<le> 460")
    case True
    then show ?thesis using epsilon_decaying[OF assms] by (simp add: min_def)
  next
    case False
    then show ?thesis using epsilon_settled[OF assms, of N] by (simp add: min_def)
  qed
  show "epsilon (snd (trainBatches (replicate N TfCompletes) ai))
          = max epsilonMin (1.0 * epsilonDecay ^ N)" if "N \<le> 459"
  proof -
    have "epsilonDecay ^ 459 \<le> epsilonDecay ^ N"
      using that epsilonDecay_nonneg epsilonDecay_le_one by (intro power_decreasing) auto
    with epsilonDecay_459 have "epsilonMin < epsilonDecay ^ N" by linarith
    with eps that show ?thesis by (simp add: min_def max_def)
  qed
qed

text \<open>
  Claim C7 at a failing input. \<open>readyAI\<close> has both networks, a batch in its memory and
  epsilon 1.0. After 460 calls of \<open>trainOnBatch\<close> whose library calls complete, all 460 have
  returned, the step counter is 460 and epsilon is \<open>0.995 ^ 460\<close>, which is below
  \<open>epsilonMin = 0.1\<close>, the value that the claimed \<open>max epsilonMin (1.0 \<times> 0.995 ^ 460)\<close> has.
\<close>

theorem epsilon_falls_below_epsilonMin:
  "fst (trainBatches (replicate 460 TfCompletes) readyAI) = Returns
   \<and> trainingStep (snd (trainBatches (replicate 460 TfCompletes) readyAI)) = 460
   \<and> epsilon (snd (trainBatches (replicate 460 TfCompletes) readyAI)) = epsilonDecay ^ 460
   \<and> epsilon (snd (trainBatches (replicate 460 TfCompletes) readyAI)) < epsilonMin
   \<and> max epsilonMin (1.0 * epsilonDecay ^ 460) = epsilonMin
   \<and> epsilonMin = 0.1"
proof -
  have rdy: "modelsReady readyAI" "batchSize \<le> length (replayMemory readyAI)"
       "epsilon readyAI = 1"
    by (simp_all add: readyAI_def newNeuralAI_def batchSize_def)
  have step0: "trainingStep readyAI = 0"
    by (simp add: readyAI_def newNeuralAI_def)
  have eps: "epsilon (snd (trainBatches (replicate 460 TfCompletes) readyAI)) = epsilonDecay ^ 460"
    using epsilon_after_updates(3)[OF rdy, of 460] by simp
  have mx: "max epsilonMin (1.0 * epsilonDecay ^ 460) = epsilonMin"
    using epsilonDecay_460 by (simp add: max_def)
  have "epsilonMin = 0.1" by (simp add: epsilonMin_def)
  with epsilon_after_updates(1,2)[OF rdy, of 460] step0 eps mx epsilonDecay_460
  show ?thesis by simp
qed

section \<open>The replay memory\<close>








section \<open>The reward\<close>






subsection \<open>The winner that determineWinner names\<close>

lemma findIndex_snoc:
  "findIndex P (xs @ [x])
     = (case findIndex P xs of Some i \<Rightarrow> Some i | None \<Rightarrow> if P x then Some (length xs) else None)"
  by (induction xs) (auto split: option.splits)

lemma findIndex_Some_iff_count: "(findIndex (ownedBy k) ts \<noteq> None) \<longleftrightarrow> 0 < ownedCount ts k"
  by (auto simp: findIndex_None_iff ownedCount_def filter_empty_conv)

lemma bumpCount_keys:
  "map fst (bumpCount k m) = (if k \<in> set (map fst m) then map fst m else map fst m @ [k])"
  by (induction m) (force simp: image_iff)+

lemma bumpCount_map_of:
  "map_of (bumpCount k m) q
     = (if q = k then Some (case map_of m k of None \<Rightarrow> 1 | Some c \<Rightarrow> c + 1) else map_of m q)"
  by (induction m) auto

lemma territoryCounts_snoc:
  "territoryCounts (ts @ [t])
     = (case t_owner t of None \<Rightarrow> territoryCounts ts
        | Some ow \<Rightarrow> bumpCount (o_id ow) (territoryCounts ts))"
  by (simp add: territoryCounts_def split: option.splits)

lemma ownedCount_snoc:
  "ownedCount (ts @ [t]) k = ownedCount ts k + (if ownedBy k t then 1 else 0)"
  by (simp add: ownedCount_def)

lemma firstCellBefore_snoc:
  "firstCellBefore ts p q \<Longrightarrow> firstCellBefore (ts @ [t]) p q"
  by (auto simp: firstCellBefore_def findIndex_snoc split: option.splits)

lemma firstCellBefore_new:
  assumes "0 < ownedCount ts p" "ownedCount ts k = 0" "ownedBy k t"
  shows "firstCellBefore (ts @ [t]) p k"
proof -
  from assms(1) obtain i where i: "findIndex (ownedBy p) ts = Some i"
    using findIndex_Some_iff_count by blast
  then have "i < length ts" by (rule findIndex_Some_bound)
  moreover from assms(2) have "findIndex (ownedBy k) ts = None"
    using findIndex_Some_iff_count[of k ts] by simp
  ultimately show ?thesis
    using i assms(3) by (simp add: firstCellBefore_def findIndex_snoc)
qed

lemma countsTable_territoryCounts: "countsTable ts (territoryCounts ts)"
proof (induction ts rule: rev_induct)
  case Nil
  show ?case by (simp add: countsTable_def territoryCounts_def ownedCount_def)
next
  case (snoc t ts)
  let ?m = "territoryCounts ts"
  from snoc have dist: "distinct (map fst ?m)"
    and look: "\<And>k. map_of ?m k = (if 0 < ownedCount ts k then Some (ownedCount ts k) else None)"
    and srt: "sorted_wrt (firstCellBefore ts) (map fst ?m)"
    by (simp_all add: countsTable_def)
  have srt': "sorted_wrt (firstCellBefore (ts @ [t])) (map fst ?m)"
    using srt firstCellBefore_snoc by (rule sorted_wrt_mono_rel[rotated]) 
  have keys: "\<And>k. k \<in> set (map fst ?m) \<longleftrightarrow> 0 < ownedCount ts k"
  proof -
    fix k
    have "k \<in> set (map fst ?m) \<longleftrightarrow> map_of ?m k \<noteq> None"
      by (metis map_of_eq_None_iff set_map)
    then show "k \<in> set (map fst ?m) \<longleftrightarrow> 0 < ownedCount ts k" by (simp add: look)
  qed
  show ?case
  proof (cases "t_owner t")
    case None
    then have no: "\<And>k. \<not> ownedBy k t" by (simp add: ownedBy_def)
    have "firstCellBefore (ts @ [t]) = firstCellBefore ts"
      by (intro ext) (simp add: firstCellBefore_def findIndex_snoc no split: option.splits)
    with None dist look srt show ?thesis
      by (simp add: countsTable_def territoryCounts_snoc ownedCount_snoc no)
  next
    case (Some ow)
    let ?k = "o_id ow"
    have own: "\<And>k. ownedBy k t \<longleftrightarrow> k = ?k" using Some by (auto simp: ownedBy_def)
    have tc: "territoryCounts (ts @ [t]) = bumpCount ?k ?m"
      using Some by (simp add: territoryCounts_snoc)
    have d': "distinct (map fst (bumpCount ?k ?m))"
      using dist by (simp add: bumpCount_keys)
    have l': "\<And>k. map_of (bumpCount ?k ?m) k
                = (if 0 < ownedCount (ts @ [t]) k then Some (ownedCount (ts @ [t]) k) else None)"
      by (simp add: bumpCount_map_of look ownedCount_snoc own)
    have s': "sorted_wrt (firstCellBefore (ts @ [t])) (map fst (bumpCount ?k ?m))"
    proof (cases "?k \<in> set (map fst ?m)")
      case True
      then show ?thesis using srt' by (simp add: bumpCount_keys)
    next
      case False
      then have zero: "ownedCount ts ?k = 0" using keys[of ?k] by simp
      have "\<forall>p \<in> set (map fst ?m). firstCellBefore (ts @ [t]) p ?k"
      proof
        fix p assume "p \<in> set (map fst ?m)"
        then have "0 < ownedCount ts p" using keys[of p] by simp
        then show "firstCellBefore (ts @ [t]) p ?k"
          using zero own by (intro firstCellBefore_new) auto
      qed
      with False srt' show ?thesis
        by (simp add: bumpCount_keys sorted_wrt_append)
    qed
    from d' l' s' tc show ?thesis by (simp add: countsTable_def)
  qed
qed


lemma pickWinner_fold:
  fixes mx mx' :: nat
  assumes "foldl (\<lambda>(maxTerritories, winner) (playerId, count).
                   if count > maxTerritories then (count, Some playerId)
                   else (maxTerritories, winner)) (mx, win) m = (mx', win')"
  shows "(mx' = mx \<and> win' = win \<and> (\<forall>x \<in> set m. snd x \<le> mx))
       \<or> (\<exists>pre w post. m = pre @ (w, mx') # post \<and> win' = Some w \<and> mx < mx'
             \<and> (\<forall>x \<in> set pre. snd x < mx') \<and> (\<forall>x \<in> set post. snd x \<le> mx'))"
  using assms
proof (induction m arbitrary: mx win)
  case Nil
  then show ?case by simp
next
  case (Cons kc m)
  obtain k c where kc: "kc = (k, c)" by (cases kc)
  show ?case
  proof (cases "c > mx")
    case True
    with Cons.prems kc have run: "foldl (\<lambda>(maxTerritories, winner) (playerId, count).
                   if count > maxTerritories then (count, Some playerId)
                   else (maxTerritories, winner)) (c, Some k) m = (mx', win')" by simp
    from Cons.IH[OF run] consider
        (same) "mx' = c" "win' = Some k" "\<forall>x \<in> set m. snd x \<le> c"
      | (later) pre w post where "m = pre @ (w, mx') # post" "win' = Some w" "c < mx'"
          "\<forall>x \<in> set pre. snd x < mx'" "\<forall>x \<in> set post. snd x \<le> mx'"
      by blast
    then show ?thesis
    proof cases
      case same
      have "kc # m = [] @ (k, mx') # m \<and> win' = Some k \<and> mx < mx'
                 \<and> (\<forall>x \<in> set []. snd x < mx') \<and> (\<forall>x \<in> set m. snd x \<le> mx')"
        using same True kc by simp
      then show ?thesis
        by (intro disjI2 exI[of _ "[]"] exI[of _ k] exI[of _ m])
    next
      case later
      have "kc # m = (kc # pre) @ (w, mx') # post \<and> win' = Some w \<and> mx < mx'
                 \<and> (\<forall>x \<in> set (kc # pre). snd x < mx') \<and> (\<forall>x \<in> set post. snd x \<le> mx')"
        using later True kc by simp
      then show ?thesis
        by (intro disjI2 exI[of _ "kc # pre"] exI[of _ w] exI[of _ post])
    qed
  next
    case False
    with Cons.prems kc have run: "foldl (\<lambda>(maxTerritories, winner) (playerId, count).
                   if count > maxTerritories then (count, Some playerId)
                   else (maxTerritories, winner)) (mx, win) m = (mx', win')" by simp
    from Cons.IH[OF run] consider
        (same) "mx' = mx" "win' = win" "\<forall>x \<in> set m. snd x \<le> mx"
      | (later) pre w post where "m = pre @ (w, mx') # post" "win' = Some w" "mx < mx'"
          "\<forall>x \<in> set pre. snd x < mx'" "\<forall>x \<in> set post. snd x \<le> mx'"
      by blast
    then show ?thesis
    proof cases
      case same
      then show ?thesis using False kc by simp
    next
      case later
      have "kc # m = (kc # pre) @ (w, mx') # post \<and> win' = Some w \<and> mx < mx'
                 \<and> (\<forall>x \<in> set (kc # pre). snd x < mx') \<and> (\<forall>x \<in> set post. snd x \<le> mx')"
        using later False kc by simp
      then show ?thesis
        by (intro disjI2 exI[of _ "kc # pre"] exI[of _ w] exI[of _ post])
    qed
  qed
qed

lemma determineWinner_split:
  assumes "determineWinner ts = Some w"
  obtains pre c post where "territoryCounts ts = pre @ (w, c) # post" "0 < c"
    "\<forall>x \<in> set pre. snd x < c" "\<forall>x \<in> set post. snd x \<le> c"
proof -
  obtain mx' win' where run: "foldl (\<lambda>(maxTerritories, winner) (playerId, count).
                   if count > maxTerritories then (count, Some playerId)
                   else (maxTerritories, winner)) (0, None) (territoryCounts ts) = (mx', win')"
    by (cases "foldl (\<lambda>(maxTerritories, winner) (playerId, count).
                   if count > maxTerritories then (count, Some playerId)
                   else (maxTerritories, winner)) (0, None) (territoryCounts ts)")
  with assms have w: "win' = Some w" by (simp add: determineWinner_def)
  from pickWinner_fold[OF run] w obtain pre w' post where
    "territoryCounts ts = pre @ (w', mx') # post" "win' = Some w'" "0 < mx'"
    "\<forall>x \<in> set pre. snd x < mx'" "\<forall>x \<in> set post. snd x \<le> mx'" by auto
  with w that show thesis by simp
qed

lemma determineWinner_exists:
  assumes "0 < ownedCount ts w"
  shows "determineWinner ts \<noteq> None"
proof -
  obtain mx' win' where run: "foldl (\<lambda>(maxTerritories, winner) (playerId, count).
                   if count > maxTerritories then (count, Some playerId)
                   else (maxTerritories, winner)) (0, None) (territoryCounts ts) = (mx', win')"
    by (cases "foldl (\<lambda>(maxTerritories, winner) (playerId, count).
                   if count > maxTerritories then (count, Some playerId)
                   else (maxTerritories, winner)) (0, None) (territoryCounts ts)")
  have "map_of (territoryCounts ts) w = Some (ownedCount ts w)"
    using countsTable_territoryCounts[of ts] assms by (simp add: countsTable_def)
  then have "(w, ownedCount ts w) \<in> set (territoryCounts ts)" by (rule map_of_SomeD)
  with assms have "\<not> (\<forall>x \<in> set (territoryCounts ts). snd x \<le> 0)" by fastforce
  with pickWinner_fold[OF run] have "win' \<noteq> None" by auto
  with run show ?thesis by (simp add: determineWinner_def)
qed

lemma determineWinner_sound:
  assumes "determineWinner ts = Some w"
  shows "0 < ownedCount ts w" 
    and "ownedCount ts q \<le> ownedCount ts w"
    and "q \<noteq> w \<Longrightarrow> ownedCount ts q = ownedCount ts w \<Longrightarrow> firstCellBefore ts w q"
proof -
  from assms obtain pre c post where m: "territoryCounts ts = pre @ (w, c) # post" and c: "0 < c"
    and pre: "\<forall>x \<in> set pre. snd x < c" and post: "\<forall>x \<in> set post. snd x \<le> c"
    by (rule determineWinner_split)
  note tab = countsTable_territoryCounts[of ts]
  from tab have dist: "distinct (map fst (territoryCounts ts))"
    and look: "\<And>k. map_of (territoryCounts ts) k
                 = (if 0 < ownedCount ts k then Some (ownedCount ts k) else None)"
    and srt: "sorted_wrt (firstCellBefore ts) (map fst (territoryCounts ts))"
    by (simp_all add: countsTable_def)
  have "(w, c) \<in> set (territoryCounts ts)" using m by simp
  with dist have "map_of (territoryCounts ts) w = Some c" by simp
  with look[of w] have cw: "0 < ownedCount ts w \<and> c = ownedCount ts w"
    by (simp split: if_splits)
  then show "0 < ownedCount ts w" by simp
  have mem: "(q, ownedCount ts q) \<in> set (territoryCounts ts)" if "0 < ownedCount ts q" for q
    using look[of q] that by (simp add: map_of_SomeD)
  show "ownedCount ts q \<le> ownedCount ts w"
  proof (cases "0 < ownedCount ts q")
    case True
    from mem[OF this] m have "(q, ownedCount ts q) \<in> set pre \<or> (q, ownedCount ts q) = (w, c)
        \<or> (q, ownedCount ts q) \<in> set post" by auto
    with pre post cw show ?thesis by auto
  next
    case False
    then show ?thesis by simp
  qed
  show "firstCellBefore ts w q" if "q \<noteq> w" "ownedCount ts q = ownedCount ts w"
  proof -
    from that cw have "0 < ownedCount ts q" by simp
    from mem[OF this] m have "(q, ownedCount ts q) \<in> set pre \<or> (q, ownedCount ts q) = (w, c)
        \<or> (q, ownedCount ts q) \<in> set post" by auto
    with pre that cw have "(q, c) \<in> set post" by auto
    then have "q \<in> set (map fst post)" by force
    moreover from srt m have "\<forall>y \<in> set (map fst post). firstCellBefore ts w y"
      by (simp add: sorted_wrt_append)
    ultimately show ?thesis by blast
  qed
qed



lemma determineWinner_None_iff: "determineWinner ts = None \<longleftrightarrow> (\<forall>q. ownedCount ts q = 0)"
proof
  assume n: "determineWinner ts = None"
  show "\<forall>q. ownedCount ts q = 0"
  proof (rule ccontr)
    assume "\<not> (\<forall>q. ownedCount ts q = 0)"
    then obtain q where "0 < ownedCount ts q" by auto
    from determineWinner_exists[OF this] n show False by simp
  qed
next
  assume z: "\<forall>q. ownedCount ts q = 0"
  show "determineWinner ts = None"
  proof (cases "determineWinner ts")
    case None then show ?thesis .
  next
    case (Some w)
    from determineWinner_sound(1)[OF this] z show ?thesis by simp
  qed
qed

subsection \<open>The reward and the bonus\<close>




end
